theory Spec2Isabelle
  imports Main "HOL-Library.Log_Nat"
begin

section \<open>JavaScript numbers\<close>

text \<open>
  Every number of server.js is an IEEE 754 double. A finite double is modelled by the
  rational it denotes; the two zeros are one value (no modelled operation tells them
  apart: both are falsy, both compare equal, both are written \<^verbatim>\<open>0\<close> by JSON).
\<close>

datatype jsnum = NaN | PosInf | NegInf | Fin rat

text \<open>The relational operators: every comparison with NaN is false.\<close>

fun js_lt :: "jsnum \<Rightarrow> jsnum \<Rightarrow> bool" where
  "js_lt NaN _ = False"
| "js_lt _ NaN = False"
| "js_lt (Fin x) (Fin y) = (x < y)"
| "js_lt (Fin _) PosInf = True"
| "js_lt NegInf (Fin _) = True"
| "js_lt NegInf PosInf = True"
| "js_lt _ _ = False"

definition js_gt :: "jsnum \<Rightarrow> jsnum \<Rightarrow> bool" where
  "js_gt a b = js_lt b a"

definition js_le :: "jsnum \<Rightarrow> jsnum \<Rightarrow> bool" where
  "js_le a b = (a \<noteq> NaN \<and> b \<noteq> NaN \<and> (js_lt a b \<or> a = b))"

definition isNaN :: "jsnum \<Rightarrow> bool" where
  "isNaN a = (a = NaN)"

text \<open>\<^verbatim>\<open>!x\<close> on a number is true for 0 and NaN only.\<close>

definition truthy_num :: "jsnum \<Rightarrow> bool" where
  "truthy_num a = (a \<noteq> NaN \<and> a \<noteq> Fin 0)"

subsection \<open>Rounding a rational to the nearest double\<close>

text \<open>
  \<open>floor_log2 a\<close> is the binary exponent of a positive rational: the \<open>e\<close> with
  \<open>2^e \<le> a < 2^(e+1)\<close>. It is computed from the bit lengths of numerator and
  denominator, which give it up to one.
\<close>

definition floor_log2 :: "rat \<Rightarrow> int" where
  "floor_log2 a =
     (let (n, d) = quotient_of a; k = bitlen n - bitlen d
      in if d * 2 ^ nat k \<le> n * 2 ^ nat (- k) then k else k - 1)"

definition round_half_even :: "rat \<Rightarrow> int" where
  "round_half_even x =
     (let f = \<lfloor>x\<rfloor>; d = x - of_int f
      in if d < 1 / 2 then f else if 1 / 2 < d then f + 1
         else if even f then f else f + 1)"

text \<open>
  Round to nearest, ties to even, with 53 bits of significand, subnormals below
  \<open>2^-1022\<close> (one step is \<open>2^-1074\<close> there) and overflow to infinity from \<open>2^1024\<close>.
\<close>

definition double_limit :: rat where
  "double_limit = power_int 2 1024"

definition to_double :: "rat \<Rightarrow> jsnum" where
  "to_double q =
     (if q = 0 then Fin 0
      else let a = \<bar>q\<bar>;
               e = max (floor_log2 a) (- 1022);
               ulp = power_int 2 (e - 52);
               r = of_int (round_half_even (a / ulp)) * ulp
           in if double_limit \<le> r then (if 0 < q then PosInf else NegInf)
              else Fin (if 0 < q then r else - r))"

text \<open>The \<^verbatim>\<open>*\<close> operator on numbers: the exact product, rounded.\<close>

fun js_mul :: "jsnum \<Rightarrow> jsnum \<Rightarrow> jsnum" where
  "js_mul NaN _ = NaN"
| "js_mul _ NaN = NaN"
| "js_mul (Fin x) (Fin y) = to_double (x * y)"
| "js_mul (Fin x) PosInf = (if x = 0 then NaN else if 0 < x then PosInf else NegInf)"
| "js_mul (Fin x) NegInf = (if x = 0 then NaN else if 0 < x then NegInf else PosInf)"
| "js_mul PosInf (Fin y) = (if y = 0 then NaN else if 0 < y then PosInf else NegInf)"
| "js_mul NegInf (Fin y) = (if y = 0 then NaN else if 0 < y then NegInf else PosInf)"
| "js_mul PosInf PosInf = PosInf"
| "js_mul NegInf NegInf = PosInf"
| "js_mul PosInf NegInf = NegInf"
| "js_mul NegInf PosInf = NegInf"

text \<open>
  \<^verbatim>\<open>Math.round\<close>: the nearest integer, a tie going towards \<open>+\<infinity>\<close>; NaN and the
  infinities are returned as they are.
\<close>

fun Math_round :: "jsnum \<Rightarrow> jsnum" where
  "Math_round (Fin x) = Fin (of_int \<lfloor>x + 1 / 2\<rfloor>)"
| "Math_round a = a"

subsection \<open>parseFloat\<close>

text \<open>
  \<^verbatim>\<open>parseFloat\<close> skips leading white space, reads the longest prefix that is a decimal
  literal (sign, \<^verbatim>\<open>Infinity\<close> or digits with an optional fraction and exponent) and
  ignores what follows; with no such prefix the result is NaN.

  A string is the list of the bytes of its UTF-8 encoding. The white space of
  JavaScript (WhiteSpace and LineTerminator) is then these byte sequences: TAB, LF,
  VT, FF, CR, SP, U+00A0, U+1680, U+2000 to U+200A, U+2028, U+2029, U+202F, U+205F,
  U+3000 and U+FEFF.
\<close>

definition white_space :: "string list" where
  "white_space =
     [[CHR 0x09], [CHR 0x0A], [CHR 0x0B], [CHR 0x0C], [CHR 0x0D], [CHR 0x20],
      [CHR 0xC2, CHR 0xA0],
      [CHR 0xE1, CHR 0x9A, CHR 0x80],
      [CHR 0xE2, CHR 0x80, CHR 0x80], [CHR 0xE2, CHR 0x80, CHR 0x81],
      [CHR 0xE2, CHR 0x80, CHR 0x82], [CHR 0xE2, CHR 0x80, CHR 0x83],
      [CHR 0xE2, CHR 0x80, CHR 0x84], [CHR 0xE2, CHR 0x80, CHR 0x85],
      [CHR 0xE2, CHR 0x80, CHR 0x86], [CHR 0xE2, CHR 0x80, CHR 0x87],
      [CHR 0xE2, CHR 0x80, CHR 0x88], [CHR 0xE2, CHR 0x80, CHR 0x89],
      [CHR 0xE2, CHR 0x80, CHR 0x8A],
      [CHR 0xE2, CHR 0x80, CHR 0xA8], [CHR 0xE2, CHR 0x80, CHR 0xA9],
      [CHR 0xE2, CHR 0x80, CHR 0xAF],
      [CHR 0xE2, CHR 0x81, CHR 0x9F],
      [CHR 0xE3, CHR 0x80, CHR 0x80],
      [CHR 0xEF, CHR 0xBB, CHR 0xBF]]"

text \<open>The white-space character a string begins with, if it begins with one.\<close>

definition ws_prefix :: "string \<Rightarrow> string option" where
  "ws_prefix s = List.find (\<lambda>p. take (length p) s = p) white_space"

function skip_ws :: "string \<Rightarrow> string" where
  "skip_ws s = (case ws_prefix s of None \<Rightarrow> s | Some p \<Rightarrow> skip_ws (drop (length p) s))"
  by pat_completeness auto
termination
proof (relation "measure length")
  show "wf (measure length)" by simp
next
  fix s p
  assume "ws_prefix s = Some p"
  then have mem: "p \<in> set white_space" and pre: "take (length p) s = p"
    by (auto simp add: ws_prefix_def find_Some_iff)
  from mem have "0 < length p"
    by (auto simp add: white_space_def)
  moreover have "length p \<le> length s"
  proof -
    from pre have "length (take (length p) s) = length p" by simp
    then show ?thesis by simp
  qed
  ultimately have "length s - length p < length s"
    by arith
  then show "(drop (length p) s, s) \<in> measure length"
    by simp
qed

definition is_digit :: "char \<Rightarrow> bool" where
  "is_digit c = (c \<in> set ''0123456789'')"

definition digit_val :: "char \<Rightarrow> nat" where
  "digit_val c = of_char c - 48"

definition digits_val :: "string \<Rightarrow> nat" where
  "digits_val ds = foldl (\<lambda>acc c. 10 * acc + digit_val c) 0 ds"

definition split_sign :: "string \<Rightarrow> bool \<times> string" where
  "split_sign t =
     (case t of
        [] \<Rightarrow> (False, t)
      | c # r \<Rightarrow> if c = CHR ''-'' then (True, r)
                 else if c = CHR ''+'' then (False, r) else (False, t))"

definition exponent_part :: "string \<Rightarrow> int" where
  "exponent_part t =
     (case t of
        [] \<Rightarrow> 0
      | c # r \<Rightarrow>
          if c = CHR ''e'' \<or> c = CHR ''E'' then
            (let (neg, u) = split_sign r; ds = takeWhile is_digit u
             in if ds = [] then 0
                else if neg then - int (digits_val ds) else int (digits_val ds))
          else 0)"

definition parseFloat :: "string \<Rightarrow> jsnum" where
  "parseFloat s =
     (let (neg, u) = split_sign (skip_ws s)
      in if take 8 u = ''Infinity'' then (if neg then NegInf else PosInf)
         else
           let ip = takeWhile is_digit u;
               r1 = dropWhile is_digit u;
               dot = (r1 \<noteq> [] \<and> hd r1 = CHR ''.'');
               fp = (if dot then takeWhile is_digit (tl r1) else []);
               r2 = (if dot then dropWhile is_digit (tl r1) else r1)
           in if ip = [] \<and> fp = [] then NaN
              else
                let v = of_nat (digits_val (ip @ fp))
                          * power_int 10 (exponent_part r2 - int (length fp))
                in to_double (if neg then - v else v))"

section \<open>Truthiness of request fields\<close>

text \<open>
  A text field of \<^verbatim>\<open>req.query\<close> or \<^verbatim>\<open>req.body\<close> is absent (\<open>None\<close>) or holds a string;
  an absent field and the empty string are falsy, every other string is truthy. The
  amount of a body is absent or a number.
\<close>

definition truthy :: "string option \<Rightarrow> bool" where
  "truthy v = (case v of None \<Rightarrow> False | Some s \<Rightarrow> s \<noteq> [])"

definition truthy_amount :: "jsnum option \<Rightarrow> bool" where
  "truthy_amount v = (case v of None \<Rightarrow> False | Some a \<Rightarrow> truthy_num a)"

text \<open>\<^verbatim>\<open>a || b\<close> on optional strings with a string default.\<close>

definition or_else :: "string option \<Rightarrow> string \<Rightarrow> string" where
  "or_else v d = (case v of None \<Rightarrow> d | Some s \<Rightarrow> if s \<noteq> [] then s else d)"

section \<open>Remote configuration\<close>

text \<open>
  The configuration document, as the data model has it: an object whose \<^verbatim>\<open>stripe\<close> and
  \<^verbatim>\<open>endpoints\<close> sections and their fields may each be missing.
\<close>

record stripe_section =
  cfg_publishableKey :: "string option"
  cfg_secretKey :: "string option"

record endpoints_section =
  eventsUrl :: "string option"
  redirectUrl :: "string option"

record remote_config =
  stripe :: "stripe_section option"
  endpoints :: "endpoints_section option"

record event =
  eventId :: string
  eventName :: string
  eventDescription :: string
  cost :: jsnum

datatype http_result = TransportError | Body string

datatype load_error = FetchError | ParseError

text \<open>An exception value as the handlers read it: \<^verbatim>\<open>error.type\<close> and \<^verbatim>\<open>error.message\<close>.\<close>

record js_error =
  err_type :: "string option"
  err_message :: string

text \<open>The parameters and the result of \<^verbatim>\<open>stripe.charges.create\<close>.\<close>

record charge_params =
  amount :: jsnum
  currency :: string
  description :: string
  source :: string
  meta_eventId :: string
  meta_eventName :: string
  meta_customerName :: string
  meta_customerEmail :: string
  meta_customerPhone :: string
  meta_processed_at :: string
  receipt_email :: string
  statement_descriptor :: string

record charge =
  charge_status :: string
  charge_id :: string
  receipt_url :: string

text \<open>
  What \<^verbatim>\<open>JSON.parse\<close> makes of the configuration body is whatever JSON value the body
  holds: \<^verbatim>\<open>null\<close>, a falsy scalar (\<^verbatim>\<open>false\<close>, \<^verbatim>\<open>0\<close> or the empty string), or a truthy
  value. A truthy value is read through its \<^verbatim>\<open>stripe\<close> and \<^verbatim>\<open>endpoints\<close> properties only,
  so it is the record of those; a truthy scalar or an array is the record with neither.
\<close>

datatype config_json = ConfigNull | ConfigFalsy | ConfigObject remote_config

text \<open>
  What lies outside the process: the answer of an HTTP GET to a URL, \<^verbatim>\<open>JSON.parse\<close> of a
  body read as a configuration or as a catalog (\<open>None\<close> when it throws), the environment
  variables, the processor, and the clock.
\<close>

record world =
  http_get :: "string \<Rightarrow> http_result"
  json_config :: "string \<Rightarrow> config_json option"
  json_events :: "string \<Rightarrow> event list option"
  STRIPE_PUBLISHABLE_KEY :: "string option"
  STRIPE_SECRET_KEY :: "string option"
  charges_create :: "charge_params \<Rightarrow> js_error + charge"
  now_iso :: string

definition config_url :: string where
  "config_url = ''https://raw.githubusercontent.com/BeeBotix/researchsummits_Webpage/refs/heads/main/stripe-config.json''"

definition default_events_url :: string where
  "default_events_url = ''https://raw.githubusercontent.com/BeeBotix/researchsummits_Webpage/refs/heads/main/events.json''"

text \<open>
  \<^verbatim>\<open>loadConfig\<close>: one GET; the promise rejects on a transport error and when the body
  does not parse, and resolves with the parsed value otherwise, whatever it is.
\<close>

definition loadConfig :: "world \<Rightarrow> load_error + config_json" where
  "loadConfig w =
     (case http_get w config_url of
        TransportError \<Rightarrow> Inl FetchError
      | Body d \<Rightarrow> (case json_config w d of None \<Rightarrow> Inl ParseError | Some c \<Rightarrow> Inr c))"

text \<open>
  The process state: the global \<^verbatim>\<open>CONFIG\<close>, initially \<^verbatim>\<open>null\<close>, and a count of the
  calls of \<^verbatim>\<open>loadConfig\<close>, which records the effect of fetching.
\<close>

record server_state =
  CONFIG :: config_json
  config_fetches :: nat

definition initial_state :: server_state where
  "initial_state = \<lparr>CONFIG = ConfigNull, config_fetches = 0\<rparr>"

text \<open>\<^verbatim>\<open>!CONFIG\<close>: true of \<^verbatim>\<open>null\<close> and of a falsy scalar.\<close>

definition not_config :: "config_json \<Rightarrow> bool" where
  "not_config c = (case c of ConfigObject _ \<Rightarrow> False | _ \<Rightarrow> True)"

text \<open>
  What \<^verbatim>\<open>CONFIG?.endpoints\<close> and the like read in the handlers: the object when
  \<^verbatim>\<open>CONFIG\<close> is one, nothing otherwise. The handlers below take it as their
  parameter \<open>cfg\<close>.
\<close>

definition config_object :: "config_json \<Rightarrow> remote_config option" where
  "config_object c = (case c of ConfigObject r \<Rightarrow> Some r | _ \<Rightarrow> None)"

definition fallback_config :: remote_config where
  "fallback_config =
     \<lparr>stripe = Some \<lparr>cfg_publishableKey = None, cfg_secretKey = None\<rparr>, endpoints = None\<rparr>"

record stripe_keys =
  publishableKey :: string
  secretKey :: string

text \<open>
  The keys returned: \<^verbatim>\<open>CONFIG.stripe?.publishableKey || process.env... || 'pk_test_fallback'\<close>
  and likewise the secret key. \<^verbatim>\<open>CONFIG.stripe\<close> is undefined on a falsy scalar, and
  throws a TypeError on \<^verbatim>\<open>null\<close>: the call then returns no keys (\<open>None\<close>).
\<close>

definition stripe_field :: "(stripe_section \<Rightarrow> string option) \<Rightarrow> remote_config \<Rightarrow> string option" where
  "stripe_field f c = (case stripe c of None \<Rightarrow> None | Some s \<Rightarrow> f s)"

definition keys_of :: "world \<Rightarrow> remote_config \<Rightarrow> stripe_keys" where
  "keys_of w c =
     \<lparr>publishableKey =
        or_else (stripe_field cfg_publishableKey c)
          (or_else (STRIPE_PUBLISHABLE_KEY w) ''pk_test_fallback''),
      secretKey =
        or_else (stripe_field cfg_secretKey c)
          (or_else (STRIPE_SECRET_KEY w) ''sk_test_fallback'')\<rparr>"

definition returned_keys :: "world \<Rightarrow> config_json \<Rightarrow> stripe_keys option" where
  "returned_keys w c =
     (case c of
        ConfigNull \<Rightarrow> None
      | ConfigFalsy \<Rightarrow> Some (keys_of w \<lparr>stripe = None, endpoints = None\<rparr>)
      | ConfigObject r \<Rightarrow> Some (keys_of w r))"

definition getStripeConfig :: "world \<Rightarrow> server_state \<Rightarrow> stripe_keys option \<times> server_state" where
  "getStripeConfig w st =
     (let st' =
        (if not_config (CONFIG st) then
           (case loadConfig w of
              Inr c \<Rightarrow> \<lparr>CONFIG = c, config_fetches = config_fetches st + 1\<rparr>
            | Inl _ \<Rightarrow>
                \<lparr>CONFIG = ConfigObject fallback_config,
                 config_fetches = config_fetches st + 1\<rparr>)
         else st)
      in (returned_keys w (CONFIG st'), st'))"

text \<open>A run of calls of \<^verbatim>\<open>getStripeConfig\<close>, the world of each call being its own.\<close>

fun getStripeConfig_calls :: "world list \<Rightarrow> server_state \<Rightarrow> server_state" where
  "getStripeConfig_calls [] st = st"
| "getStripeConfig_calls (w # ws) st = getStripeConfig_calls ws (snd (getStripeConfig w st))"

section \<open>The event catalog\<close>

definition events_url :: "remote_config option \<Rightarrow> string" where
  "events_url cfg =
     (case cfg of
        None \<Rightarrow> default_events_url
      | Some c \<Rightarrow> (case endpoints c of
                     None \<Rightarrow> default_events_url
                   | Some ep \<Rightarrow> or_else (eventsUrl ep) default_events_url))"

text \<open>
  \<^verbatim>\<open>loadEvents\<close>: fetched on every call from the configured URL or the default one. The
  catalog is taken to be an array of event records; a body that is not one counts as
  not parsing.
\<close>

definition loadEvents :: "world \<Rightarrow> remote_config option \<Rightarrow> load_error + event list" where
  "loadEvents w cfg =
     (case http_get w (events_url cfg) of
        TransportError \<Rightarrow> Inl FetchError
      | Body d \<Rightarrow> (case json_events w d of None \<Rightarrow> Inl ParseError | Some es \<Rightarrow> Inr es))"

text \<open>\<^verbatim>\<open>events.find(e => e.eventId === eventId)\<close>: the first match.\<close>

definition find_event :: "event list \<Rightarrow> string \<Rightarrow> event option" where
  "find_event es eid = List.find (\<lambda>e. eventId e = eid) es"

section \<open>GET /payment/:eventId\<close>

text \<open>
  The amount block of the handler (the lines from \<^verbatim>\<open>const customPay = req.query.pay\<close> to
  \<^verbatim>\<open>eventCost = customAmount\<close>). Its two early returns are the two error values: the
  page "Please provide a valid payment amount." is \<open>InvalidAmount\<close>, the page "Payment
  amount must be between $1 and $10,000." is \<open>OutOfRange\<close>.
\<close>

datatype amount_error = InvalidAmount | OutOfRange

definition resolveAmount :: "event \<Rightarrow> string option \<Rightarrow> amount_error + jsnum" where
  "resolveAmount ev customPay =
     (case customPay of
        None \<Rightarrow> Inr (cost ev)
      | Some s \<Rightarrow>
          if s \<noteq> [] then
            (let customAmount = parseFloat s
             in if isNaN customAmount \<or> js_le customAmount (Fin 0) then Inl InvalidAmount
                else if js_lt customAmount (Fin 1) \<or> js_gt customAmount (Fin 10000)
                  then Inl OutOfRange
                else Inr customAmount)
          else Inr (cost ev))"

text \<open>
  What the checkout page shows and what its script will post: the event, the price
  \<^verbatim>\<open>eventCost\<close>, whether the "Custom Amount" line is there, and the \<^verbatim>\<open>amount\<close> field of
  the request body, \<^verbatim>\<open>eventCost * 100\<close>.
\<close>

record checkout_view =
  view_eventId :: string
  view_eventName :: string
  view_eventDescription :: string
  view_custom :: bool
  view_eventCost :: jsnum
  view_amount :: jsnum

text \<open>A response of the route: an error page (status and message) or the checkout page.\<close>

datatype page = ErrorPage nat string | CheckoutPage checkout_view

definition payment_page :: "world \<Rightarrow> remote_config option \<Rightarrow> string \<Rightarrow> string option \<Rightarrow> page" where
  "payment_page w cfg eid customPay =
     (case loadEvents w cfg of
        Inl _ \<Rightarrow> ErrorPage 500 ''Unable to load event data. Please try again later.''
      | Inr events \<Rightarrow>
          (case find_event events eid of
             None \<Rightarrow> ErrorPage 404 ''The requested conference event was not found.''
           | Some ev \<Rightarrow>
               (case resolveAmount ev customPay of
                  Inl InvalidAmount \<Rightarrow> ErrorPage 400 ''Please provide a valid payment amount.''
                | Inl OutOfRange \<Rightarrow>
                    ErrorPage 400 ''Payment amount must be between $1 and $10,000.''
                | Inr eventCost \<Rightarrow>
                    CheckoutPage
                      \<lparr>view_eventId = eid,
                       view_eventName = eventName ev,
                       view_eventDescription = eventDescription ev,
                       view_custom = truthy customPay,
                       view_eventCost = eventCost,
                       view_amount = js_mul eventCost (Fin 100)\<rparr>)))"

section \<open>POST /process-payment\<close>

record payment_body =
  token :: "string option"
  body_eventId :: "string option"
  name :: "string option"
  email :: "string option"
  phone :: "string option"
  body_amount :: "jsnum option"

record response =
  status :: nat
  success :: bool
  error :: "string option"
  chargeId :: "string option"
  receiptUrl :: "string option"

definition failure :: "nat \<Rightarrow> string \<Rightarrow> response" where
  "failure code msg =
     \<lparr>status = code, success = False, error = Some msg, chargeId = None, receiptUrl = None\<rparr>"

text \<open>The \<^verbatim>\<open>catch\<close> block: the message is chosen by \<^verbatim>\<open>error.type\<close>.\<close>

definition errorMessage :: "js_error \<Rightarrow> string" where
  "errorMessage err =
     (if err_type err = Some ''StripeCardError'' then err_message err
      else if err_type err = Some ''StripeInvalidRequestError'' then ''Invalid payment information''
      else if err_type err = Some ''StripeAPIError'' then ''Payment service temporarily unavailable''
      else ''Payment failed. Please try again.'')"

definition catch_block :: "js_error \<Rightarrow> response" where
  "catch_block err = failure 400 (errorMessage err)"

text \<open>
  The handler returns its response and the list of the calls of
  \<^verbatim>\<open>stripe.charges.create\<close> it has made. The presence test is the handler's chain of
  \<^verbatim>\<open>!field\<close>, and the object passed to the processor is built from a body that has
  passed it. A rejection of \<^verbatim>\<open>loadEvents\<close> is an error object without a \<^verbatim>\<open>type\<close>, so
  the \<^verbatim>\<open>catch\<close> block answers it with its default message.
\<close>

definition missing_fields :: "payment_body \<Rightarrow> bool" where
  "missing_fields body =
     (\<not> truthy (token body) \<or> \<not> truthy (body_eventId body) \<or> \<not> truthy (name body)
      \<or> \<not> truthy (email body) \<or> \<not> truthy (phone body) \<or> \<not> truthy_amount (body_amount body))"

definition charge_request :: "world \<Rightarrow> payment_body \<Rightarrow> event \<Rightarrow> charge_params" where
  "charge_request w body ev =
     \<lparr>amount = Math_round (the (body_amount body)),
      currency = ''usd'',
      description = ''Research Summit Registration: '' @ eventName ev,
      source = the (token body),
      meta_eventId = the (body_eventId body),
      meta_eventName = eventName ev,
      meta_customerName = the (name body),
      meta_customerEmail = the (email body),
      meta_customerPhone = the (phone body),
      meta_processed_at = now_iso w,
      receipt_email = the (email body),
      statement_descriptor = ''RESEARCH SUMMITS''\<rparr>"

definition process_payment ::
  "world \<Rightarrow> remote_config option \<Rightarrow> payment_body \<Rightarrow> response \<times> charge_params list" where
  "process_payment w cfg body =
     (if missing_fields body then (failure 400 ''Missing required fields'', [])
      else if js_lt (the (body_amount body)) (Fin 50)
      then (failure 400 ''Amount too small'', [])
      else
        (case loadEvents w cfg of
           Inl _ \<Rightarrow> (failure 400 ''Payment failed. Please try again.'', [])
         | Inr events \<Rightarrow>
             (case find_event events (the (body_eventId body)) of
                None \<Rightarrow> (failure 404 ''Conference event not found'', [])
              | Some ev \<Rightarrow>
                  (case charges_create w (charge_request w body ev) of
                     Inl err \<Rightarrow> (catch_block err, [charge_request w body ev])
                   | Inr ch \<Rightarrow>
                       if charge_status ch = ''succeeded''
                       then (\<lparr>status = 200, success = True, error = None,
                              chargeId = Some (charge_id ch),
                              receiptUrl = Some (receipt_url ch)\<rparr>,
                             [charge_request w body ev])
                       else (failure 400 ''Payment was not successful'',
                             [charge_request w body ev])))))"

section \<open>From the checkout page to the charge\<close>

text \<open>
  \<^verbatim>\<open>JSON.stringify\<close> writes a finite number as it is and NaN and the infinities as
  \<^verbatim>\<open>null\<close>, which the server reads as a missing field.
\<close>

definition json_number :: "jsnum \<Rightarrow> jsnum option" where
  "json_number a = (case a of Fin x \<Rightarrow> Some (Fin x) | _ \<Rightarrow> None)"

text \<open>
  The body the page's script posts on submit, from the card token and the trimmed form
  fields the customer has entered.
\<close>

record form_input =
  form_token :: string
  fullName :: string
  form_email :: string
  form_phone :: string

definition client_body :: "checkout_view \<Rightarrow> form_input \<Rightarrow> payment_body" where
  "client_body v f =
     \<lparr>token = Some (form_token f),
      body_eventId = Some (view_eventId v),
      name = Some (fullName f),
      email = Some (form_email f),
      phone = Some (form_phone f),
      body_amount = json_number (view_amount v)\<rparr>"

text \<open>
  A checkout: the page is requested (in the world \<open>w\<close>) and, when it is the checkout
  page, its form is submitted (in the world \<open>w'\<close>). An error page has no form, so
  nothing is posted. The result is the list of charges asked of the processor.
\<close>

definition checkout ::
  "world \<Rightarrow> world \<Rightarrow> remote_config option \<Rightarrow> string \<Rightarrow> string option \<Rightarrow> form_input
     \<Rightarrow> charge_params list" where
  "checkout w w' cfg eid customPay f =
     (case payment_page w cfg eid customPay of
        ErrorPage _ _ \<Rightarrow> []
      | CheckoutPage v \<Rightarrow> snd (process_payment w' cfg (client_body v f)))"

section \<open>GET /api/events/:eventId\<close>



section \<open>Scenarios\<close>

text \<open>
  The catalog entry of the server's own usage examples (\<^verbatim>\<open>/payment/RS2025AI\<close>), a world
  that serves it and whose processor accepts every charge, one whose remote sources
  cannot be reached, one whose configuration body is \<^verbatim>\<open>false\<close> and one where it is
  \<^verbatim>\<open>null\<close>, one whose catalog
  does not parse, one whose processor declines the card, and one whose charge stays
  pending.
\<close>

definition scenario_event :: event where
  "scenario_event =
     \<lparr>eventId = ''RS2025AI'', eventName = ''AI Research Summit 2025'',
      eventDescription = ''Annual summit'', cost = Fin 299\<rparr>"

definition scenario_config :: remote_config where
  "scenario_config =
     \<lparr>stripe = Some \<lparr>cfg_publishableKey = Some ''pk_test_123'',
                      cfg_secretKey = Some ''sk_test_123''\<rparr>,
      endpoints = None\<rparr>"

definition scenario_world :: world where
  "scenario_world =
     \<lparr>http_get = (\<lambda>url. Body ''{...}''),
      json_config = (\<lambda>d. Some (ConfigObject scenario_config)),
      json_events = (\<lambda>d. Some [scenario_event]),
      STRIPE_PUBLISHABLE_KEY = None,
      STRIPE_SECRET_KEY = None,
      charges_create =
        (\<lambda>p. Inr \<lparr>charge_status = ''succeeded'', charge_id = ''ch_123'',
                   receipt_url = ''https://pay.stripe.com/receipts/1''\<rparr>),
      now_iso = ''2025-01-01T00:00:00.000Z''\<rparr>"

definition unreachable_world :: world where
  "unreachable_world = scenario_world\<lparr>http_get := (\<lambda>url. TransportError)\<rparr>"

definition falsy_config_world :: world where
  "falsy_config_world = scenario_world\<lparr>json_config := (\<lambda>d. Some ConfigFalsy)\<rparr>"

definition null_config_world :: world where
  "null_config_world = scenario_world\<lparr>json_config := (\<lambda>d. Some ConfigNull)\<rparr>"


definition declining_world :: world where
  "declining_world =
     scenario_world
       \<lparr>charges_create :=
          (\<lambda>p. Inl \<lparr>err_type = Some ''StripeCardError'',
                     err_message = ''Your card was declined.''\<rparr>)\<rparr>"

definition pending_world :: world where
  "pending_world =
     scenario_world
       \<lparr>charges_create :=
          (\<lambda>p. Inr \<lparr>charge_status = ''pending'', charge_id = ''ch_124'',
                     receipt_url = ''https://pay.stripe.com/receipts/2''\<rparr>)\<rparr>"

definition scenario_form :: form_input where
  "scenario_form =
     \<lparr>form_token = ''tok_visa'', fullName = ''Ada Lovelace'',
      form_email = ''ada@example.org'', form_phone = ''5550100''\<rparr>"

definition scenario_body :: "jsnum option \<Rightarrow> payment_body" where
  "scenario_body a =
     \<lparr>token = Some ''tok_visa'', body_eventId = Some ''RS2025AI'', name = Some ''Ada Lovelace'',
      email = Some ''ada@example.org'', phone = Some ''5550100'', body_amount = a\<rparr>"

section \<open>Facts about rounding\<close>

lemma p2_pos: "0 < power_int (2::rat) e"
  by (simp add: power_int_def)

lemma p2_mono: "i \<le> j \<Longrightarrow> power_int (2::rat) i \<le> power_int 2 j"
  by (rule power_int_increasing) simp_all

lemma p2_sandwich_unique:
  assumes "power_int (2::rat) i \<le> a" "a < power_int 2 (i + 1)"
      and "power_int (2::rat) j \<le> a" "a < power_int 2 (j + 1)"
  shows "i = j"
proof (rule ccontr)
  assume "i \<noteq> j"
  then consider "i + 1 \<le> j" | "j + 1 \<le> i" by linarith
  then show False
  proof cases
    case 1
    from p2_mono [OF 1] assms show False by linarith
  next
    case 2
    from p2_mono [OF 2] assms show False by linarith
  qed
qed

lemma p2_nat: "0 \<le> k \<Longrightarrow> power_int (2::rat) k = 2 ^ nat k"
  by (simp add: power_int_def)

lemma pos_rat_quotient:
  assumes "0 < a" "quotient_of a = (n, d)"
  shows "0 < n" "0 < d" "a = of_int n / of_int d"
proof -
  show d: "0 < d" using assms(2) by (rule quotient_of_denom_pos)
  show eq: "a = of_int n / of_int d" using assms(2) by (rule quotient_of_div)
  from assms(1) eq d show "0 < n"
    by (simp add: zero_less_divide_iff)
qed

lemma bitlen_p2_bounds:
  assumes "0 < n"
  shows "power_int (2::rat) (bitlen n - 1) \<le> of_int n" "of_int n < power_int (2::rat) (bitlen n)"
proof -
  from assms have b1: "1 \<le> bitlen n"
    using bitlen_eq_zero_iff [of n] bitlen_nonneg [of n] by linarith
  from bitlen_bounds [OF assms] have lo: "2 ^ nat (bitlen n - 1) \<le> n" and hi: "n < 2 ^ nat (bitlen n)"
    by simp_all
  have "(of_int (2 ^ nat (bitlen n - 1)) :: rat) \<le> of_int n"
    using lo by (simp only: of_int_le_iff)
  then show "power_int (2::rat) (bitlen n - 1) \<le> of_int n"
    using b1 by (simp add: p2_nat)
  have "(of_int n :: rat) < of_int (2 ^ nat (bitlen n))"
    using hi by (simp only: of_int_less_iff)
  then show "of_int n < power_int (2::rat) (bitlen n)"
    using b1 by (simp add: p2_nat)
qed

lemma floor_log2_bounds:
  assumes "0 < a"
  shows "power_int 2 (floor_log2 a) \<le> a \<and> a < power_int 2 (floor_log2 a + 1)"
proof -
  obtain n d where q: "quotient_of a = (n, d)" by (cases "quotient_of a")
  note nd = pos_rat_quotient [OF assms q]
  define k where "k = bitlen n - bitlen d"
  have dpos: "(0::rat) < of_int d" using nd(2) by simp
  have cond: "(d * 2 ^ nat k \<le> n * 2 ^ nat (- k)) \<longleftrightarrow> power_int 2 k \<le> a"
  proof (cases "0 \<le> k")
    case True
    then have "(d * 2 ^ nat k \<le> n * 2 ^ nat (- k)) \<longleftrightarrow> (d * 2 ^ nat k \<le> n)" by simp
    also have "\<dots> \<longleftrightarrow> ((of_int (d * 2 ^ nat k) :: rat) \<le> of_int n)" by (simp only: of_int_le_iff)
    also have "\<dots> \<longleftrightarrow> ((2::rat) ^ nat k \<le> of_int n / of_int d)"
      using dpos by (simp add: pos_le_divide_eq mult.commute)
    finally show ?thesis using True nd(3) by (simp add: p2_nat)
  next
    case False
    then have nk: "nat k = 0" "0 \<le> - k" by simp_all
    have pk: "power_int (2::rat) k = 1 / 2 ^ nat (- k)"
      using False by (simp add: power_int_def power_one_over inverse_eq_divide)
    have "(d * 2 ^ nat k \<le> n * 2 ^ nat (- k)) \<longleftrightarrow> (d \<le> n * 2 ^ nat (- k))" using nk by simp
    also have "\<dots> \<longleftrightarrow> ((of_int d :: rat) \<le> of_int (n * 2 ^ nat (- k)))" by (simp only: of_int_le_iff)
    also have "\<dots> \<longleftrightarrow> (1 / 2 ^ nat (- k) \<le> (of_int n :: rat) / of_int d)"
      using dpos by (simp add: field_simps)
    finally show ?thesis using pk nd(3) by simp
  qed
  have fl: "floor_log2 a = (if power_int 2 k \<le> a then k else k - 1)"
    using cond unfolding k_def by (simp add: floor_log2_def q Let_def)
  note bn = bitlen_p2_bounds [OF nd(1)] and bd = bitlen_p2_bounds [OF nd(2)]
  have up: "a < power_int 2 (k + 1)"
  proof -
    have "a * of_int d = of_int n" using nd(3) dpos by simp
    have "of_int n < power_int (2::rat) (bitlen n)" by (rule bn(2))
    also have "\<dots> = power_int 2 (k + 1) * power_int 2 (bitlen d - 1)"
      by (simp add: k_def power_int_add [symmetric])
    also have "\<dots> \<le> power_int 2 (k + 1) * of_int d"
      using bd(1) p2_pos [of "k + 1"] by (simp add: mult_left_mono)
    finally have "of_int n / of_int d < power_int (2::rat) (k + 1)"
      using dpos by (simp add: pos_divide_less_eq)
    then show ?thesis using nd(3) by simp
  qed
  have lo: "power_int 2 (k - 1) \<le> a"
  proof -
    have "power_int (2::rat) (k - 1) * of_int d \<le> power_int 2 (k - 1) * power_int 2 (bitlen d)"
      using bd(2) p2_pos [of "k - 1"] by (simp add: mult_left_mono)
    also have "\<dots> = power_int 2 (bitlen n - 1)"
      by (simp add: k_def power_int_add [symmetric])
    also have "\<dots> \<le> of_int n" by (rule bn(1))
    finally have "power_int (2::rat) (k - 1) \<le> of_int n / of_int d"
      using dpos by (simp add: pos_le_divide_eq)
    then show ?thesis using nd(3) by simp
  qed
  show ?thesis
  proof (cases "power_int 2 k \<le> a")
    case True
    with fl up show ?thesis by simp
  next
    case False
    with fl lo show ?thesis by simp
  qed
qed

lemma floor_log2_eq:
  assumes "power_int 2 e \<le> a" "a < power_int 2 (e + 1)"
  shows "floor_log2 a = e"
proof -
  have "0 < a" using assms(1) p2_pos [of e] by linarith
  from floor_log2_bounds [OF this] assms show ?thesis
    by (intro p2_sandwich_unique [of _ a]) simp_all
qed

lemma round_half_even_of_int: "round_half_even (of_int z) = z"
  by (simp add: round_half_even_def)

lemma round_half_even_nearest: "\<bar>of_int (round_half_even x) - x\<bar> \<le> 1 / 2"
proof -
  have "of_int \<lfloor>x\<rfloor> \<le> x" "x < of_int \<lfloor>x\<rfloor> + 1" by linarith+
  then show ?thesis
    by (auto simp add: round_half_even_def Let_def abs_le_iff)
qed

lemma round_half_even_tie:
  assumes "\<bar>of_int (round_half_even x) - x\<bar> = 1 / 2"
  shows "even (round_half_even x)"
proof -
  have b: "of_int \<lfloor>x\<rfloor> \<le> x" "x < of_int \<lfloor>x\<rfloor> + 1" by linarith+
  show ?thesis
  proof (cases "x - of_int \<lfloor>x\<rfloor> < 1 / 2")
    case True
    with b assms show ?thesis by (simp add: round_half_even_def Let_def)
  next
    case False
    note nlt = this
    show ?thesis
    proof (cases "1 / 2 < x - of_int \<lfloor>x\<rfloor>")
      case True
      with b nlt assms show ?thesis by (simp add: round_half_even_def Let_def)
    next
      case False
      with nlt show ?thesis by (simp add: round_half_even_def Let_def)
    qed
  qed
qed

lemma round_half_even_nonneg: "0 \<le> x \<Longrightarrow> 0 \<le> round_half_even x"
  by (auto simp add: round_half_even_def Let_def)

lemma to_double_pos:
  assumes "power_int 2 e \<le> q" "q < power_int 2 (e + 1)" "- 1022 \<le> e"
  shows "to_double q =
           (if double_limit \<le> of_int (round_half_even (q / power_int 2 (e - 52))) * power_int 2 (e - 52)
            then PosInf
            else Fin (of_int (round_half_even (q / power_int 2 (e - 52))) * power_int 2 (e - 52)))"
proof -
  have pos: "0 < q" using assms(1) p2_pos [of e] by linarith
  have "floor_log2 q = e" using assms(1,2) by (rule floor_log2_eq)
  moreover have "max e (- 1022) = e" using assms(3) by simp
  ultimately show ?thesis using pos
    by (simp add: to_double_def Let_def)
qed

lemma to_double_minus:
  "to_double (- q) = (case to_double q of Fin r \<Rightarrow> Fin (- r) | PosInf \<Rightarrow> NegInf | NegInf \<Rightarrow> PosInf | NaN \<Rightarrow> NaN)"
  by (cases "0 < q"; cases "q = 0") (auto simp add: to_double_def Let_def)

text \<open>A double is rounded to itself.\<close>

lemma to_double_exact:
  assumes "q = of_int m * power_int 2 k" "0 < m" "m < 2 ^ 53" "- 1074 \<le> k" "q < double_limit"
  shows "to_double q = Fin q"
proof -
  have pos: "0 < q" using assms(1,2) p2_pos [of k] by simp
  define e where "e = max (floor_log2 q) (- 1022)"
  define ulp :: rat where "ulp = power_int 2 (e - 52)"
  have ulp_pos: "0 < ulp" unfolding ulp_def by (rule p2_pos)
  have ke: "e - 52 \<le> k"
  proof (cases "floor_log2 q \<le> - 1022")
    case True
    then have "e = - 1022" by (simp add: e_def)
    with assms(4) show ?thesis by simp
  next
    case False
    then have ee: "e = floor_log2 q" by (simp add: e_def)
    have "power_int 2 e \<le> q" using floor_log2_bounds [OF pos] ee by simp
    also have "q < of_int (2 ^ 53) * power_int 2 k"
      unfolding assms(1) using assms(3) p2_pos [of k]
      by (intro mult_strict_right_mono) (simp_all only: of_int_less_iff)
    also have "\<dots> = power_int 2 (53 + k)"
      by (simp add: power_int_add)
    finally have "power_int (2::rat) e < power_int 2 (53 + k)" .
    then have "e < 53 + k"
      using p2_mono [of "53 + k" e] by (cases "e < 53 + k") auto
    then show ?thesis by simp
  qed
  have "q / ulp = of_int m * power_int 2 (k - (e - 52))"
    unfolding assms(1) ulp_def by (simp add: power_int_diff)
  also have "\<dots> = of_int (m * 2 ^ nat (k - (e - 52)))"
    using ke by (simp add: p2_nat)
  finally have quo: "q / ulp = of_int (m * 2 ^ nat (k - (e - 52)))" .
  have r: "of_int (round_half_even (q / ulp)) * ulp = q"
    unfolding quo round_half_even_of_int unfolding quo [symmetric] using ulp_pos by simp
  show ?thesis
    using pos r assms(5) unfolding to_double_def
    by (simp add: Let_def e_def [symmetric] ulp_def [symmetric])
qed

lemma to_double_int:
  assumes "0 < n" "n < 2 ^ 53"
  shows "to_double (of_int n) = Fin (of_int n)"
proof (rule to_double_exact [where m = n and k = 0])
  show "(of_int n :: rat) = of_int n * power_int 2 0" by simp
  have "(of_int n :: rat) < of_int (2 ^ 53)" using assms(2) by (simp only: of_int_less_iff)
  also have "\<dots> < double_limit" by (simp add: double_limit_def)
  finally show "(of_int n :: rat) < double_limit" .
qed (use assms in simp_all)

text \<open>
  What rounding to a double of binary exponent \<open>e\<close> does: the significand is the
  integer nearest to the scaled value, the even one of two that are equally near, and
  the error is at most the fraction \<open>2^-53\<close> of the value.
\<close>

lemma rounded_significand:
  assumes "power_int 2 e \<le> q"
  shows "\<bar>of_int (round_half_even (q / power_int 2 (e - 52))) - q / power_int 2 (e - 52)\<bar> \<le> 1 / 2"
    and "\<bar>of_int (round_half_even (q / power_int 2 (e - 52))) - q / power_int 2 (e - 52)\<bar> = 1 / 2
         \<longrightarrow> even (round_half_even (q / power_int 2 (e - 52)))"
    and "\<bar>of_int (round_half_even (q / power_int 2 (e - 52))) * power_int 2 (e - 52) - q\<bar>
         \<le> q / 2 ^ 53"
proof -
  define ulp :: rat where "ulp = power_int 2 (e - 52)"
  define m where "m = round_half_even (q / ulp)"
  have ulp_pos: "0 < ulp" unfolding ulp_def by (rule p2_pos)
  have n: "\<bar>of_int m - q / ulp\<bar> \<le> 1 / 2"
    unfolding m_def by (rule round_half_even_nearest)
  show "\<bar>of_int (round_half_even (q / power_int 2 (e - 52))) - q / power_int 2 (e - 52)\<bar> \<le> 1 / 2"
    using n by (simp add: m_def ulp_def)
  show "\<bar>of_int (round_half_even (q / power_int 2 (e - 52))) - q / power_int 2 (e - 52)\<bar> = 1 / 2
         \<longrightarrow> even (round_half_even (q / power_int 2 (e - 52)))"
    using round_half_even_tie by blast
  have "of_int m * ulp - q = (of_int m - q / ulp) * ulp"
    using ulp_pos by (simp add: field_simps)
  then have "\<bar>of_int m * ulp - q\<bar> = \<bar>of_int m - q / ulp\<bar> * ulp"
    using ulp_pos by (simp add: abs_mult)
  also have "\<dots> \<le> 1 / 2 * ulp"
    using n ulp_pos by (intro mult_right_mono) simp_all
  also have "1 / 2 * ulp = power_int 2 e / 2 ^ 53"
  proof -
    have "power_int (2::rat) ((e - 52) + 52) = power_int 2 (e - 52) * power_int 2 52"
      by (rule power_int_add) simp
    then show ?thesis by (simp add: ulp_def)
  qed
  also have "\<dots> \<le> q / 2 ^ 53"
    using assms by (simp add: divide_right_mono)
  finally show "\<bar>of_int (round_half_even (q / power_int 2 (e - 52))) * power_int 2 (e - 52) - q\<bar>
         \<le> q / 2 ^ 53"
    by (simp add: m_def ulp_def)
qed

lemma to_double_normal:
  assumes "power_int 2 e \<le> q" and "q < power_int 2 (e + 1)" and "- 1022 \<le> e"
      and "2 * q < double_limit"
  shows "to_double q = Fin (of_int (round_half_even (q / power_int 2 (e - 52))) * power_int 2 (e - 52))"
proof -
  have pos: "0 < q" using assms(1) p2_pos [of e] by linarith
  have "\<bar>of_int (round_half_even (q / power_int 2 (e - 52))) * power_int 2 (e - 52) - q\<bar>
         \<le> q / 2 ^ 53"
    using assms(1) by (rule rounded_significand(3))
  also have "q / 2 ^ 53 \<le> q"
    using pos by (simp add: field_simps)
  finally have "of_int (round_half_even (q / power_int 2 (e - 52))) * power_int 2 (e - 52) \<le> 2 * q"
    by linarith
  with assms(4) have "\<not> double_limit
      \<le> of_int (round_half_even (q / power_int 2 (e - 52))) * power_int 2 (e - 52)"
    by linarith
  then show ?thesis
    by (simp add: to_double_pos [OF assms(1-3)])
qed

lemma to_double_nonpos:
  assumes "q \<le> 0" and "to_double q = Fin r"
  shows "r \<le> 0"
proof (cases "q = 0")
  case True
  with assms(2) show ?thesis by (simp add: to_double_def)
next
  case False
  with assms(1) have neg: "q < 0" by simp
  define ulp :: rat where "ulp = power_int 2 (max (floor_log2 \<bar>q\<bar>) (- 1022) - 52)"
  have ulp_pos: "0 < ulp" unfolding ulp_def by (rule p2_pos)
  have "0 \<le> round_half_even (\<bar>q\<bar> / ulp)"
    using ulp_pos by (intro round_half_even_nonneg) simp
  then have "0 \<le> of_int (round_half_even (\<bar>q\<bar> / ulp)) * ulp"
    using ulp_pos by simp
  moreover have "r = - (of_int (round_half_even (\<bar>q\<bar> / ulp)) * ulp)"
    using assms(2) neg False
    by (simp add: to_double_def Let_def ulp_def split: if_splits)
  ultimately show ?thesis by simp
qed

text \<open>A finite result that is at least 2 comes from a positive value in the normal range.\<close>

lemma to_double_nearest:
  assumes "to_double q = Fin r" and "2 \<le> r"
  shows "\<exists>e m. power_int 2 e \<le> q \<and> q < power_int 2 (e + 1)
           \<and> r = of_int m * power_int 2 (e - 52)
           \<and> \<bar>of_int m - q / power_int 2 (e - 52)\<bar> \<le> 1 / 2
           \<and> (\<bar>of_int m - q / power_int 2 (e - 52)\<bar> = 1 / 2 \<longrightarrow> even m)
           \<and> \<bar>r - q\<bar> \<le> q / 2 ^ 53"
proof -
  have pos: "0 < q"
  proof (rule ccontr)
    assume "\<not> 0 < q"
    then have "q \<le> 0" by simp
    from to_double_nonpos [OF this assms(1)] assms(2) show False by simp
  qed
  define e where "e = floor_log2 q"
  have b: "power_int 2 e \<le> q" "q < power_int 2 (e + 1)"
    using floor_log2_bounds [OF pos] by (simp_all add: e_def)
  have normal: "- 1022 \<le> e"
  proof (rule ccontr)
    assume "\<not> - 1022 \<le> e"
    then have lt: "e + 1 \<le> - 1022" by simp
    then have mx: "max (floor_log2 q) (- 1022) = - 1022" by (simp add: e_def)
    have q1: "q < 1"
    proof -
      have "q < power_int 2 (e + 1)" by (rule b(2))
      also have "\<dots> \<le> power_int 2 0" using lt by (intro p2_mono) simp
      finally show ?thesis by simp
    qed
    define ulp :: rat where "ulp = power_int 2 (- 1022 - 52)"
    have ulp_pos: "0 < ulp" unfolding ulp_def by (rule p2_pos)
    have ulp1: "ulp \<le> 1"
    proof -
      have "ulp \<le> power_int 2 0" unfolding ulp_def by (intro p2_mono) simp
      then show ?thesis by simp
    qed
    have "\<bar>of_int (round_half_even (q / ulp)) - q / ulp\<bar> \<le> 1 / 2"
      by (rule round_half_even_nearest)
    then have "of_int (round_half_even (q / ulp)) \<le> q / ulp + 1 / 2"
      by linarith
    then have "of_int (round_half_even (q / ulp)) * ulp \<le> (q / ulp + 1 / 2) * ulp"
      using ulp_pos by (intro mult_right_mono) simp_all
    also have "\<dots> = q + ulp / 2"
      using ulp_pos by (simp add: field_simps)
    also have "\<dots> < 2" using q1 ulp1 by simp
    finally have small: "of_int (round_half_even (q / ulp)) * ulp < 2" .
    have "r = of_int (round_half_even (q / ulp)) * ulp"
      using assms(1) pos mx
      by (simp add: to_double_def Let_def ulp_def split: if_splits)
    with small assms(2) show False by simp
  qed
  define m where "m = round_half_even (q / power_int 2 (e - 52))"
  have r: "r = of_int m * power_int 2 (e - 52)"
    using assms(1) by (simp add: to_double_pos [OF b normal] m_def split: if_splits)
  note s = rounded_significand [OF b(1), folded m_def]
  show ?thesis
    using b r s by (intro exI [of _ e] exI [of _ m]) simp
qed

text \<open>A whole number of dollars up to the limit has its exact number of cents.\<close>

lemma js_mul_100_whole:
  assumes "a \<in> \<int>" "1 \<le> a" "a \<le> 10000"
  shows "js_mul (Fin a) (Fin 100) = Fin (a * 100)"
proof -
  from assms(1) obtain n :: int where a: "a = of_int n" by (auto elim: Ints_cases)
  with assms(2,3) have n: "1 \<le> n" "n \<le> 10000" by simp_all
  then have "0 < n * 100" "n * 100 < 2 ^ 53" by simp_all
  then have "to_double (of_int (n * 100)) = Fin (of_int (n * 100))" by (rule to_double_int)
  then show ?thesis by (simp add: a)
qed

lemma js_mul_100_finite:
  assumes "js_mul a (Fin 100) = Fin y"
  shows "\<exists>x. a = Fin x \<and> to_double (x * 100) = Fin y"
  using assms by (cases a) (simp_all split: if_splits)

lemma Math_round_whole: "Math_round (Fin (of_int n)) = Fin (of_int n)"
proof -
  have "\<lfloor>(of_int n :: rat) + 1 / 2\<rfloor> = n"
    by (rule floor_unique) simp_all
  then show ?thesis by simp
qed

section \<open>Facts about the handlers\<close>

lemma parseFloat_empty: "parseFloat [] = NaN"
  by (simp add: parseFloat_def split_sign_def skip_ws.simps ws_prefix_def white_space_def)

lemma resolveAmount_supplied:
  assumes "s \<noteq> []"
  shows "resolveAmount ev (Some s) =
           (if isNaN (parseFloat s) \<or> js_le (parseFloat s) (Fin 0) then Inl InvalidAmount
            else if js_lt (parseFloat s) (Fin 1) \<or> js_gt (parseFloat s) (Fin 10000)
              then Inl OutOfRange
            else Inr (parseFloat s))"
  using assms by (simp add: resolveAmount_def Let_def)

lemma resolveAmount_in_range:
  assumes "parseFloat s = Fin a" "1 \<le> a" "a \<le> 10000"
  shows "resolveAmount ev (Some s) = Inr (Fin a)"
proof -
  have "s \<noteq> []" using assms(1) parseFloat_empty by auto
  then show ?thesis
    using assms by (simp add: resolveAmount_supplied isNaN_def js_le_def js_gt_def)
qed

lemma resolveAmount_empty: "resolveAmount ev (Some []) = Inr (cost ev)"
  by (simp add: resolveAmount_def)

lemma payment_page_resolved:
  assumes "loadEvents w cfg = Inr events" and "find_event events eid = Some ev"
      and "resolveAmount ev customPay = Inr a"
  shows "payment_page w cfg eid customPay =
           CheckoutPage
             \<lparr>view_eventId = eid, view_eventName = eventName ev,
              view_eventDescription = eventDescription ev, view_custom = truthy customPay,
              view_eventCost = a, view_amount = js_mul a (Fin 100)\<rparr>"
  using assms by (simp add: payment_page_def)


lemma failure_fields:
  "failure code msg =
     \<lparr>status = code, success = False, error = Some msg, chargeId = None, receiptUrl = None\<rparr>"
  by (simp add: failure_def)

lemma process_payment_missing:
  assumes "missing_fields b"
  shows "process_payment w cfg b = (failure 400 ''Missing required fields'', [])"
  using assms by (simp add: process_payment_def)

lemma process_payment_too_small:
  assumes "\<not> missing_fields b" and "js_lt (the (body_amount b)) (Fin 50)"
  shows "process_payment w cfg b = (failure 400 ''Amount too small'', [])"
  using assms by (simp add: process_payment_def)


text \<open>The handler once its three guards are passed: the processor is called once.\<close>

lemma process_payment_reaches_processor:
  assumes "\<not> missing_fields b" and "\<not> js_lt (the (body_amount b)) (Fin 50)"
      and "loadEvents w cfg = Inr events"
      and "find_event events (the (body_eventId b)) = Some ev"
  shows "process_payment w cfg b =
           (case charges_create w (charge_request w b ev) of
              Inl err \<Rightarrow> catch_block err
            | Inr ch \<Rightarrow>
                if charge_status ch = ''succeeded''
                then \<lparr>status = 200, success = True, error = None,
                      chargeId = Some (charge_id ch), receiptUrl = Some (receipt_url ch)\<rparr>
                else failure 400 ''Payment was not successful'',
            [charge_request w b ev])"
  using assms by (simp add: process_payment_def split: sum.splits)

lemma process_payment_calls:
  assumes "p \<in> set (snd (process_payment w cfg b))"
  shows "\<not> missing_fields b \<and> \<not> js_lt (the (body_amount b)) (Fin 50)
       \<and> (\<exists>ev. p = charge_request w b ev)"
  using assms
  by (auto simp add: process_payment_def split: if_splits sum.splits option.splits)

lemma process_payment_calls_amount:
  assumes "p \<in> set (snd (process_payment w cfg b))"
  shows "amount p = Math_round (the (body_amount b))"
  using process_payment_calls [OF assms] by (auto simp add: charge_request_def)

lemma json_number_truthy:
  assumes "truthy_amount (json_number x)"
  shows "\<exists>y. x = Fin y \<and> json_number x = Some (Fin y)"
  using assms by (cases x) (simp_all add: json_number_def truthy_amount_def)

lemma checkout_rejected:
  assumes "\<And>ev. \<exists>e. resolveAmount ev customPay = Inl e"
  shows "checkout w w' cfg eid customPay f = []"
proof (cases "payment_page w cfg eid customPay")
  case (ErrorPage c m)
  then show ?thesis by (simp add: checkout_def)
next
  case (CheckoutPage v)
  then obtain ev c where "resolveAmount ev customPay = Inr c"
    by (auto simp add: payment_page_def split: sum.splits option.splits amount_error.splits)
  with assms [of ev] show ?thesis by simp
qed

lemma getStripeConfig_cached:
  assumes "CONFIG st = ConfigObject r"
  shows "getStripeConfig w st = (Some (keys_of w r), st)"
  using assms by (simp add: getStripeConfig_def not_config_def returned_keys_def)

lemma getStripeConfig_calls_cached:
  assumes "CONFIG st = ConfigObject r"
  shows "getStripeConfig_calls ws st = st"
  using assms by (induction ws) (simp_all add: getStripeConfig_cached)

lemma getStripeConfig_fetches:
  assumes "CONFIG st = ConfigNull \<or> CONFIG st = ConfigFalsy"
  shows "snd (getStripeConfig w st) =
           \<lparr>CONFIG = (case loadConfig w of Inr c \<Rightarrow> c | Inl _ \<Rightarrow> ConfigObject fallback_config),
            config_fetches = config_fetches st + 1\<rparr>"
  using assms by (auto simp add: getStripeConfig_def not_config_def Let_def split: sum.splits)

section \<open>Evaluating the scenarios\<close>

lemmas parse_defs =
  parseFloat_def split_sign_def skip_ws.simps ws_prefix_def white_space_def is_digit_def
  digits_val_def digit_val_def exponent_part_def

lemma floor_numeral_quotient:
  "\<lfloor>numeral a / numeral b :: rat\<rfloor> = numeral a div numeral b"
  using floor_divide_of_int_eq [where ?'a = rat, of "numeral a" "numeral b"] by simp

lemma to_double_450: "to_double 450 = Fin 450"
  using to_double_int [of 450] by simp

lemma to_double_20000: "to_double 20000 = Fin 20000"
  using to_double_int [of 20000] by simp

lemma to_double_45000: "to_double 45000 = Fin 45000"
  using to_double_int [of 45000] by simp

lemma to_double_29900: "to_double 29900 = Fin 29900"
  using to_double_int [of 29900] by simp

lemma to_double_half: "to_double (1 / 2) = Fin (1 / 2)"
  using to_double_exact [of "1 / 2" 1 "- 1"] by (simp add: double_limit_def)

lemma to_double_minus_5: "to_double (- 5) = Fin (- 5)"
  using to_double_int [of 5] by (simp add: to_double_minus)

lemma parseFloat_450: "parseFloat ''450'' = Fin 450"
  by (simp add: parse_defs to_double_450)

lemma parseFloat_20000: "parseFloat ''20000'' = Fin 20000"
  by (simp add: parse_defs to_double_20000)

lemma parseFloat_half: "parseFloat ''0.5'' = Fin (1 / 2)"
  by (simp add: parse_defs to_double_half)

lemma parseFloat_minus_5: "parseFloat ''-5'' = Fin (- 5)"
  by (simp add: parse_defs to_double_minus_5)

lemma parseFloat_abc: "parseFloat ''abc'' = NaN"
  by (simp add: parse_defs)

lemma Math_round_29900: "Math_round (Fin 29900) = Fin 29900"
  using Math_round_whole [of 29900] by (simp del: Math_round.simps)

text \<open>
  The product of two doubles is rounded again: \<^verbatim>\<open>1.1 * 100\<close> is the double next above
  110, which \<^verbatim>\<open>Math.round\<close> takes to 110.
\<close>

lemma to_double_1_1: "to_double (11 / 10) = Fin (2476979795053773 / 2251799813685248)"
  by (subst to_double_pos [where e = 0])
     (simp_all add: round_half_even_def double_limit_def
        floor_divide_of_int_eq [where ?'a = rat, of 49539595901075456 10, simplified])

lemma parseFloat_1_1: "parseFloat ''1.1'' = Fin (2476979795053773 / 2251799813685248)"
  by (simp add: parse_defs to_double_1_1)

lemma js_mul_1_1:
  "js_mul (parseFloat ''1.1'') (Fin 100) = Fin (7740561859543041 / 70368744177664)"
  "Math_round (js_mul (parseFloat ''1.1'') (Fin 100)) = Fin 110"
proof -
  have "to_double (2476979795053773 / 2251799813685248 * 100) =
          Fin (7740561859543041 / 70368744177664)"
    by (subst to_double_pos [where e = 6])
       (simp_all add: round_half_even_def double_limit_def
          floor_divide_of_int_eq [where ?'a = rat, of 61924494876344325 8, simplified])
  then show m: "js_mul (parseFloat ''1.1'') (Fin 100) = Fin (7740561859543041 / 70368744177664)"
    by (simp add: parseFloat_1_1)
  have "\<lfloor>(7740561859543041 / 70368744177664 + 1 / 2 :: rat)\<rfloor> = 110"
    by (rule floor_unique) simp_all
  then show "Math_round (js_mul (parseFloat ''1.1'') (Fin 100)) = Fin 110"
    by (simp add: m)
qed

lemma to_double_1_045:
  "to_double (209 / 200) = Fin (588282701325271 / 562949953421312)"
  by (subst to_double_pos [where e = 0])
     (simp_all add: round_half_even_def double_limit_def floor_numeral_quotient)

lemma parseFloat_1_045: "parseFloat ''1.045'' = Fin (588282701325271 / 562949953421312)"
  by (simp add: parse_defs to_double_1_045)

text \<open>
  \<^verbatim>\<open>1.045 * 100\<close> lies half way between two doubles and is rounded up to 104.5, which
  \<^verbatim>\<open>Math.round\<close> takes to 105; the double 1.045 itself is below 1.045.
\<close>

lemma js_mul_1_045:
  "js_mul (Fin (588282701325271 / 562949953421312)) (Fin 100) = Fin (209 / 2)"
proof -
  have "to_double (588282701325271 / 562949953421312 * 100) = Fin (209 / 2)"
    by (subst to_double_pos [where e = 6])
       (simp_all add: round_half_even_def double_limit_def floor_numeral_quotient)
  then show ?thesis by (simp only: js_mul.simps)
qed

lemma Math_round_104_5: "Math_round (Fin (209 / 2)) = Fin 105"
  by simp

lemma scenario_event_fields:
  "eventId scenario_event = ''RS2025AI''"
  "eventName scenario_event = ''AI Research Summit 2025''"
  "eventDescription scenario_event = ''Annual summit''"
  "cost scenario_event = Fin 299"
  by (simp_all add: scenario_event_def)

lemma scenario_body_fields:
  "token (scenario_body a) = Some ''tok_visa''"
  "body_eventId (scenario_body a) = Some ''RS2025AI''"
  "name (scenario_body a) = Some ''Ada Lovelace''"
  "email (scenario_body a) = Some ''ada@example.org''"
  "phone (scenario_body a) = Some ''5550100''"
  "body_amount (scenario_body a) = a"
  by (simp_all add: scenario_body_def)

lemma scenario_body_missing:
  "missing_fields (scenario_body a) = (\<not> truthy_amount a)"
  by (simp add: missing_fields_def scenario_body_fields truthy_def)

lemma scenario_body_present:
  "\<not> missing_fields (scenario_body (Some (Fin x))) \<longleftrightarrow> x \<noteq> 0"
  by (simp add: scenario_body_missing truthy_amount_def truthy_num_def)

lemma loadEvents_scenario: "loadEvents scenario_world cfg = Inr [scenario_event]"
  by (simp add: loadEvents_def scenario_world_def)

lemma loadEvents_pending: "loadEvents pending_world cfg = Inr [scenario_event]"
  by (simp add: loadEvents_def pending_world_def scenario_world_def)

lemma loadEvents_declining: "loadEvents declining_world cfg = Inr [scenario_event]"
  by (simp add: loadEvents_def declining_world_def scenario_world_def)

lemma loadConfig_unreachable: "loadConfig unreachable_world = Inl FetchError"
  by (simp add: loadConfig_def unreachable_world_def)

lemma loadConfig_scenario: "loadConfig scenario_world = Inr (ConfigObject scenario_config)"
  by (simp add: loadConfig_def scenario_world_def)

lemma loadConfig_falsy: "loadConfig falsy_config_world = Inr ConfigFalsy"
  by (simp add: loadConfig_def falsy_config_world_def scenario_world_def)

lemma loadConfig_null: "loadConfig null_config_world = Inr ConfigNull"
  by (simp add: loadConfig_def null_config_world_def scenario_world_def)

lemma find_scenario_event: "find_event [scenario_event] ''RS2025AI'' = Some scenario_event"
  by (simp add: find_event_def scenario_event_def)

lemma resolveAmount_1_045:
  "resolveAmount ev (Some ''1.045'') = Inr (Fin (588282701325271 / 562949953421312))"
  by (rule resolveAmount_in_range [OF parseFloat_1_045]) simp_all

lemma resolveAmount_1_1:
  "resolveAmount ev (Some ''1.1'') = Inr (Fin (2476979795053773 / 2251799813685248))"
  by (rule resolveAmount_in_range [OF parseFloat_1_1]) simp_all

lemma payment_page_1_1:
  "payment_page scenario_world None ''RS2025AI'' (Some ''1.1'') =
     CheckoutPage
       \<lparr>view_eventId = ''RS2025AI'', view_eventName = ''AI Research Summit 2025'',
        view_eventDescription = ''Annual summit'', view_custom = True,
        view_eventCost = Fin (2476979795053773 / 2251799813685248),
        view_amount = Fin (7740561859543041 / 70368744177664)\<rparr>"
  using js_mul_1_1(1)
  by (simp add: payment_page_resolved [OF loadEvents_scenario find_scenario_event resolveAmount_1_1]
      parseFloat_1_1 truthy_def scenario_event_fields)

lemma scenario_reaches_processor:
  "\<not> missing_fields (scenario_body (Some (Fin 29900)))"
  "\<not> js_lt (the (body_amount (scenario_body (Some (Fin 29900))))) (Fin 50)"
  "find_event [scenario_event] (the (body_eventId (scenario_body (Some (Fin 29900))))) =
     Some scenario_event"
  by (simp_all add: scenario_body_present scenario_body_fields find_scenario_event)

lemma checkout_scenario:
  assumes "resolveAmount scenario_event customPay = Inr a"
      and "js_mul a (Fin 100) = Fin y" and "y \<noteq> 0" and "\<not> y < 50"
  shows "checkout scenario_world scenario_world None ''RS2025AI'' customPay scenario_form =
           [charge_request scenario_world (scenario_body (Some (Fin y))) scenario_event]"
proof -
  have b: "client_body
        \<lparr>view_eventId = ''RS2025AI'', view_eventName = eventName scenario_event,
         view_eventDescription = eventDescription scenario_event,
         view_custom = truthy customPay, view_eventCost = a, view_amount = Fin y\<rparr>
        scenario_form
       = scenario_body (Some (Fin y))"
    by (simp add: client_body_def scenario_form_def scenario_body_def json_number_def)
  have "snd (process_payment scenario_world None (scenario_body (Some (Fin y)))) =
      [charge_request scenario_world (scenario_body (Some (Fin y))) scenario_event]"
    using assms(3,4)
    by (subst process_payment_reaches_processor
          [where events = "[scenario_event]" and ev = scenario_event])
       (simp_all add: scenario_body_present scenario_body_fields loadEvents_scenario
          find_scenario_event)
  then show ?thesis
    by (simp add: checkout_def
        payment_page_resolved [OF loadEvents_scenario find_scenario_event assms(1)] assms(2) b)
qed

lemma checkout_scenario_default:
  "checkout scenario_world scenario_world None ''RS2025AI'' (Some []) scenario_form =
     [charge_request scenario_world (scenario_body (Some (Fin 29900))) scenario_event]"
proof -
  have m: "js_mul (Fin 299) (Fin 100) = Fin 29900"
    by (simp add: to_double_29900)
  have p: "payment_page scenario_world None ''RS2025AI'' (Some []) =
      CheckoutPage
        \<lparr>view_eventId = ''RS2025AI'', view_eventName = eventName scenario_event,
         view_eventDescription = eventDescription scenario_event, view_custom = False,
         view_eventCost = Fin 299, view_amount = Fin 29900\<rparr>"
    using m
    by (simp add: payment_page_def loadEvents_scenario find_scenario_event resolveAmount_def
        truthy_def scenario_event_fields)
  have b: "client_body
        \<lparr>view_eventId = ''RS2025AI'', view_eventName = eventName scenario_event,
         view_eventDescription = eventDescription scenario_event, view_custom = False,
         view_eventCost = Fin 299, view_amount = Fin 29900\<rparr> scenario_form
       = scenario_body (Some (Fin 29900))"
    by (simp add: client_body_def scenario_form_def scenario_body_def json_number_def)
  have "snd (process_payment scenario_world None (scenario_body (Some (Fin 29900)))) =
      [charge_request scenario_world (scenario_body (Some (Fin 29900))) scenario_event]"
    by (subst process_payment_reaches_processor
          [where events = "[scenario_event]" and ev = scenario_event])
       (simp_all add: scenario_body_missing scenario_body_fields truthy_amount_def
          truthy_num_def loadEvents_scenario find_scenario_event)
  then show ?thesis
    by (simp add: checkout_def p b)
qed

lemma checkout_scenario_catalog_price:
  "checkout scenario_world scenario_world None ''RS2025AI'' None scenario_form =
     [charge_request scenario_world (scenario_body (Some (Fin 29900))) scenario_event]"
proof -
  have p: "payment_page scenario_world None ''RS2025AI'' None =
      CheckoutPage
        \<lparr>view_eventId = ''RS2025AI'', view_eventName = eventName scenario_event,
         view_eventDescription = eventDescription scenario_event, view_custom = False,
         view_eventCost = Fin 299, view_amount = Fin 29900\<rparr>"
    by (simp add: payment_page_def loadEvents_scenario find_scenario_event resolveAmount_def
        truthy_def scenario_event_fields to_double_29900)
  have b: "client_body
        \<lparr>view_eventId = ''RS2025AI'', view_eventName = eventName scenario_event,
         view_eventDescription = eventDescription scenario_event, view_custom = False,
         view_eventCost = Fin 299, view_amount = Fin 29900\<rparr> scenario_form
       = scenario_body (Some (Fin 29900))"
    by (simp add: client_body_def scenario_form_def scenario_body_def json_number_def)
  have "snd (process_payment scenario_world None (scenario_body (Some (Fin 29900)))) =
      [charge_request scenario_world (scenario_body (Some (Fin 29900))) scenario_event]"
    by (simp add: process_payment_reaches_processor
          [OF scenario_reaches_processor(1,2) loadEvents_scenario scenario_reaches_processor(3)])
  then show ?thesis
    by (simp add: checkout_def p b)
qed

lemma checkout_1_045:
  "checkout scenario_world scenario_world None ''RS2025AI'' (Some ''1.045'') scenario_form =
     [charge_request scenario_world (scenario_body (Some (Fin (209 / 2)))) scenario_event]"
  by (rule checkout_scenario [OF resolveAmount_1_045 js_mul_1_045]) simp_all

lemma amount_charge_request:
  "amount (charge_request w (scenario_body (Some a)) ev) = Math_round a"
  by (simp add: charge_request_def scenario_body_fields)

section \<open>The override amount\<close>

text \<open>
  C1, as stated, fails for an override that is not a whole number: \<^verbatim>\<open>pay=1.1\<close> is
  accepted, and the amount the page sends on is \<^verbatim>\<open>1.1 * 100\<close> in doubles,
  110.00000000000001, which is not 100 times the resolved amount.
\<close>

theorem cents_of_override_are_rounded:
  "parseFloat ''1.1'' = Fin (2476979795053773 / 2251799813685248)
   \<and> (1::rat) \<le> 2476979795053773 / 2251799813685248
   \<and> (2476979795053773 / 2251799813685248 :: rat) \<le> 10000
   \<and> payment_page scenario_world None ''RS2025AI'' (Some ''1.1'') =
       CheckoutPage
         \<lparr>view_eventId = ''RS2025AI'', view_eventName = ''AI Research Summit 2025'',
          view_eventDescription = ''Annual summit'', view_custom = True,
          view_eventCost = Fin (2476979795053773 / 2251799813685248),
          view_amount = Fin (7740561859543041 / 70368744177664)\<rparr>
   \<and> (7740561859543041 / 70368744177664 :: rat) \<noteq> 2476979795053773 / 2251799813685248 * 100"
  by (simp add: parseFloat_1_1 payment_page_1_1)

text \<open>
  C1, amended. When the catalog loads and holds the event, an override that
  \<^verbatim>\<open>parseFloat\<close> reads as a number \<open>a\<close> with \<open>1 \<le> a \<le> 10000\<close> is the resolved amount,
  whatever the catalog price, and the checkout page shows it. The amount its script
  sends on is \<open>100 a\<close> rounded to the nearest double: with \<open>e\<close> the binary exponent of
  \<open>100 a\<close>, it is \<open>m 2^(e-52)\<close> for the integer \<open>m\<close> nearest to \<open>100 a / 2^(e-52)\<close>, the
  even one of two equally near. It differs from \<open>100 a\<close> by at most \<open>100 a / 2^53\<close>, and
  is \<open>100 a\<close> itself when \<open>a\<close> is a whole number.
\<close>

theorem override_replaces_catalog_cost:
  assumes "loadEvents w cfg = Inr events"
      and "find_event events eid = Some ev"
      and "parseFloat s = Fin a" and "1 \<le> a" and "a \<le> 10000"
  shows "resolveAmount ev (Some s) = Inr (Fin a)
       \<and> (\<exists>e m. power_int 2 e \<le> a * 100 \<and> a * 100 < power_int 2 (e + 1)
             \<and> \<bar>of_int m - a * 100 / power_int 2 (e - 52)\<bar> \<le> 1 / 2
             \<and> (\<bar>of_int m - a * 100 / power_int 2 (e - 52)\<bar> = 1 / 2 \<longrightarrow> even m)
             \<and> \<bar>of_int m * power_int 2 (e - 52) - a * 100\<bar> \<le> a * 100 / 2 ^ 53
             \<and> payment_page w cfg eid (Some s) =
                 CheckoutPage
                   \<lparr>view_eventId = eid, view_eventName = eventName ev,
                    view_eventDescription = eventDescription ev, view_custom = True,
                    view_eventCost = Fin a,
                    view_amount = Fin (of_int m * power_int 2 (e - 52))\<rparr>)
       \<and> (a \<in> \<int> \<longrightarrow>
            payment_page w cfg eid (Some s) =
              CheckoutPage
                \<lparr>view_eventId = eid, view_eventName = eventName ev,
                 view_eventDescription = eventDescription ev, view_custom = True,
                 view_eventCost = Fin a, view_amount = Fin (a * 100)\<rparr>)"
proof -
  have ne: "s \<noteq> []" using assms(3) parseFloat_empty by auto
  have r: "resolveAmount ev (Some s) = Inr (Fin a)"
    using assms(3-5) by (rule resolveAmount_in_range)
  have p: "payment_page w cfg eid (Some s) =
           CheckoutPage
             \<lparr>view_eventId = eid, view_eventName = eventName ev,
              view_eventDescription = eventDescription ev, view_custom = True,
              view_eventCost = Fin a, view_amount = to_double (a * 100)\<rparr>"
    using ne by (simp add: payment_page_resolved [OF assms(1,2) r] truthy_def)
  define q where "q = a * 100"
  have q: "100 \<le> q" "q \<le> 1000000" using assms(4,5) by (simp_all add: q_def)
  then have pos: "0 < q" by simp
  define e where "e = floor_log2 q"
  define m where "m = round_half_even (q / power_int 2 (e - 52))"
  have b: "power_int 2 e \<le> q" "q < power_int 2 (e + 1)"
    using floor_log2_bounds [OF pos] by (simp_all add: e_def)
  have normal: "- 1022 \<le> e"
  proof (rule ccontr)
    assume "\<not> - 1022 \<le> e"
    then have "e + 1 \<le> 0" by simp
    then have "power_int (2::rat) (e + 1) \<le> power_int 2 0" by (rule p2_mono)
    with b(2) q(1) show False by simp
  qed
  have lim: "2 * q < double_limit"
  proof -
    have "2 * q < power_int 2 21" using q(2) by simp
    also have "power_int (2::rat) 21 \<le> power_int 2 1024" by (rule p2_mono) simp
    finally show ?thesis by (simp only: double_limit_def)
  qed
  have d: "to_double q = Fin (of_int m * power_int 2 (e - 52))"
    unfolding m_def using b normal lim by (rule to_double_normal)
  note n = rounded_significand [OF b(1), folded m_def]
  have first: "\<exists>e m. power_int 2 e \<le> a * 100 \<and> a * 100 < power_int 2 (e + 1)
             \<and> \<bar>of_int m - a * 100 / power_int 2 (e - 52)\<bar> \<le> 1 / 2
             \<and> (\<bar>of_int m - a * 100 / power_int 2 (e - 52)\<bar> = 1 / 2 \<longrightarrow> even m)
             \<and> \<bar>of_int m * power_int 2 (e - 52) - a * 100\<bar> \<le> a * 100 / 2 ^ 53
             \<and> payment_page w cfg eid (Some s) =
                 CheckoutPage
                   \<lparr>view_eventId = eid, view_eventName = eventName ev,
                    view_eventDescription = eventDescription ev, view_custom = True,
                    view_eventCost = Fin a,
                    view_amount = Fin (of_int m * power_int 2 (e - 52))\<rparr>"
    using b n p d unfolding q_def
    by (intro exI [of _ e] exI [of _ m]) simp
  have whole: "payment_page w cfg eid (Some s) =
              CheckoutPage
                \<lparr>view_eventId = eid, view_eventName = eventName ev,
                 view_eventDescription = eventDescription ev, view_custom = True,
                 view_eventCost = Fin a, view_amount = Fin (a * 100)\<rparr>"
    if "a \<in> \<int>"
    using js_mul_100_whole [OF that assms(4,5)] p by simp
  from r first whole show ?thesis by blast
qed

theorem override_replaces_catalog_cost_witness:
  "resolveAmount scenario_event (Some ''450'') = Inr (Fin 450)
   \<and> payment_page scenario_world None ''RS2025AI'' (Some ''450'') =
       CheckoutPage
         \<lparr>view_eventId = ''RS2025AI'', view_eventName = ''AI Research Summit 2025'',
          view_eventDescription = ''Annual summit'', view_custom = True,
          view_eventCost = Fin 450, view_amount = Fin 45000\<rparr>
   \<and> resolveAmount scenario_event (Some ''1.1'') =
       Inr (Fin (2476979795053773 / 2251799813685248))
   \<and> (\<exists>m. \<bar>of_int m - 2476979795053773 / 2251799813685248 * 100 / power_int 2 (6 - 52)\<bar>
             \<le> (1 / 2 :: rat)
          \<and> payment_page scenario_world None ''RS2025AI'' (Some ''1.1'') =
              CheckoutPage
                \<lparr>view_eventId = ''RS2025AI'', view_eventName = ''AI Research Summit 2025'',
                 view_eventDescription = ''Annual summit'', view_custom = True,
                 view_eventCost = Fin (2476979795053773 / 2251799813685248),
                 view_amount = Fin (of_int m * power_int 2 (6 - 52))\<rparr>)"
proof -
  have one: "(1::rat) \<le> 450" "(450::rat) \<le> 10000" "(450::rat) \<in> \<int>" by simp_all
  have two: "(1::rat) \<le> 2476979795053773 / 2251799813685248"
    "(2476979795053773 / 2251799813685248 :: rat) \<le> 10000" by simp_all
  from override_replaces_catalog_cost
         [OF loadEvents_scenario find_scenario_event parseFloat_450 one(1,2), of None]
  have a: "resolveAmount scenario_event (Some ''450'') = Inr (Fin 450)
     \<and> payment_page scenario_world None ''RS2025AI'' (Some ''450'') =
       CheckoutPage
         \<lparr>view_eventId = ''RS2025AI'', view_eventName = ''AI Research Summit 2025'',
          view_eventDescription = ''Annual summit'', view_custom = True,
          view_eventCost = Fin 450, view_amount = Fin 45000\<rparr>"
    using one(3) by (simp add: scenario_event_fields)
  from override_replaces_catalog_cost
         [OF loadEvents_scenario find_scenario_event parseFloat_1_1 two, of None]
  obtain e m where
    em: "power_int 2 e \<le> (2476979795053773 / 2251799813685248 * 100 :: rat)"
        "(2476979795053773 / 2251799813685248 * 100 :: rat) < power_int 2 (e + 1)"
        "\<bar>of_int m - 2476979795053773 / 2251799813685248 * 100 / power_int 2 (e - 52)\<bar>
           \<le> (1 / 2 :: rat)"
        "payment_page scenario_world None ''RS2025AI'' (Some ''1.1'') =
              CheckoutPage
                \<lparr>view_eventId = ''RS2025AI'', view_eventName = eventName scenario_event,
                 view_eventDescription = eventDescription scenario_event, view_custom = True,
                 view_eventCost = Fin (2476979795053773 / 2251799813685248),
                 view_amount = Fin (of_int m * power_int 2 (e - 52))\<rparr>"
    and r: "resolveAmount scenario_event (Some ''1.1'') =
       Inr (Fin (2476979795053773 / 2251799813685248))"
    by blast
  have "e = 6"
  proof (rule p2_sandwich_unique [OF em(1,2)])
    show "power_int 2 6 \<le> (2476979795053773 / 2251799813685248 * 100 :: rat)" by simp
    show "(2476979795053773 / 2251799813685248 * 100 :: rat) < power_int 2 (6 + 1)" by simp
  qed
  with em(3,4) have "\<exists>m. \<bar>of_int m - 2476979795053773 / 2251799813685248 * 100 / power_int 2 (6 - 52)\<bar>
             \<le> (1 / 2 :: rat)
          \<and> payment_page scenario_world None ''RS2025AI'' (Some ''1.1'') =
              CheckoutPage
                \<lparr>view_eventId = ''RS2025AI'', view_eventName = ''AI Research Summit 2025'',
                 view_eventDescription = ''Annual summit'', view_custom = True,
                 view_eventCost = Fin (2476979795053773 / 2251799813685248),
                 view_amount = Fin (of_int m * power_int 2 (6 - 52))\<rparr>"
    by (intro exI [of _ m]) (simp add: scenario_event_fields)
  with a r show ?thesis by blast
qed

text \<open>
  C2, as stated, fails for the empty override: \<^verbatim>\<open>?pay=\<close> gives the string \<^verbatim>\<open>''\<close>, which is
  not a number, but it is falsy, so the handler takes it for no override, shows the
  catalog price and the submitted form charges it.
\<close>

theorem empty_override_is_accepted:
  "isNaN (parseFloat []) \<and>
   resolveAmount scenario_event (Some []) = Inr (Fin 299) \<and>
   checkout scenario_world scenario_world None ''RS2025AI'' (Some []) scenario_form =
     [charge_request scenario_world (scenario_body (Some (Fin 29900))) scenario_event]"
  by (simp add: parseFloat_empty isNaN_def resolveAmount_def scenario_event_fields
      checkout_scenario_default)

text \<open>
  C2, amended. Every non-empty override that \<^verbatim>\<open>parseFloat\<close> does not read as a number,
  or reads as a number that is \<open>\<le> 0\<close>, \<open>< 1\<close> or \<open>> 10000\<close>, is refused by the amount
  block; the page for an event of the catalog is then a 400 error page, and no charge
  is asked of the processor in that checkout. The empty override is taken for no
  override and resolves to the catalog price.
\<close>

theorem bad_override_is_rejected:
  assumes "s \<noteq> []"
      and "isNaN (parseFloat s) \<or> js_le (parseFloat s) (Fin 0)
           \<or> js_lt (parseFloat s) (Fin 1) \<or> js_gt (parseFloat s) (Fin 10000)"
  shows "(\<exists>e. resolveAmount ev (Some s) = Inl e)
       \<and> (loadEvents w cfg = Inr events \<and> find_event events eid = Some ev
            \<longrightarrow> (\<exists>msg. payment_page w cfg eid (Some s) = ErrorPage 400 msg))
       \<and> checkout w w' cfg eid (Some s) f = []
       \<and> resolveAmount ev (Some []) = Inr (cost ev)"
proof -
  have r: "\<exists>e. resolveAmount ev' (Some s) = Inl e" for ev'
    using assms by (auto simp add: resolveAmount_supplied)
  then have c: "checkout w w' cfg eid (Some s) f = []"
    by (intro checkout_rejected) blast
  have "\<exists>msg. payment_page w cfg eid (Some s) = ErrorPage 400 msg"
    if "loadEvents w cfg = Inr events" "find_event events eid = Some ev"
    using r [of ev] that
    by (auto simp add: payment_page_def split: amount_error.splits)
  with r [of ev] c resolveAmount_empty [of ev] show ?thesis by blast
qed

theorem bad_override_is_rejected_witness:
  "resolveAmount scenario_event (Some ''0.5'') = Inl OutOfRange
   \<and> payment_page scenario_world None ''RS2025AI'' (Some ''0.5'') =
       ErrorPage 400 ''Payment amount must be between $1 and $10,000.''
   \<and> checkout scenario_world scenario_world None ''RS2025AI'' (Some ''0.5'') scenario_form = []
   \<and> resolveAmount scenario_event (Some ''abc'') = Inl InvalidAmount
   \<and> checkout scenario_world scenario_world None ''RS2025AI'' (Some ''abc'') scenario_form = []"
proof -
  have h: "js_lt (parseFloat ''0.5'') (Fin 1)"
    by (simp add: parseFloat_half)
  have n: "isNaN (parseFloat ''abc'')"
    by (simp add: parseFloat_abc isNaN_def)
  have r: "resolveAmount scenario_event (Some ''0.5'') = Inl OutOfRange"
    by (simp add: resolveAmount_supplied parseFloat_half isNaN_def js_le_def js_gt_def)
  have r': "resolveAmount scenario_event (Some ''abc'') = Inl InvalidAmount"
    by (simp add: resolveAmount_supplied parseFloat_abc isNaN_def)
  have p: "payment_page scenario_world None ''RS2025AI'' (Some ''0.5'') =
       ErrorPage 400 ''Payment amount must be between $1 and $10,000.''"
    by (simp add: payment_page_def loadEvents_scenario find_scenario_event r)
  from bad_override_is_rejected [of "''0.5''" scenario_event scenario_world None
        "[scenario_event]" "''RS2025AI''" scenario_world scenario_form]
    bad_override_is_rejected [of "''abc''" scenario_event scenario_world None
        "[scenario_event]" "''RS2025AI''" scenario_world scenario_form]
  show ?thesis
    using h n r r' p by simp
qed

text \<open>
  C3, as stated, fails for the empty override: \<^verbatim>\<open>?pay=\<close> supplies the string \<^verbatim>\<open>''\<close>, which
  is not a number, but neither check runs on it: the page is the checkout page at the
  catalog price, not the InvalidAmount page.
\<close>

theorem empty_override_is_not_checked:
  "isNaN (parseFloat [])
   \<and> payment_page scenario_world None ''RS2025AI'' (Some []) =
       CheckoutPage
         \<lparr>view_eventId = ''RS2025AI'', view_eventName = ''AI Research Summit 2025'',
          view_eventDescription = ''Annual summit'', view_custom = False,
          view_eventCost = Fin 299, view_amount = Fin 29900\<rparr>
   \<and> payment_page scenario_world None ''RS2025AI'' (Some []) \<noteq>
       ErrorPage 400 ''Please provide a valid payment amount.''"
proof -
  have r: "resolveAmount scenario_event (Some []) = Inr (Fin 299)"
    by (simp add: resolveAmount_empty scenario_event_fields)
  show ?thesis
    by (simp add: parseFloat_empty isNaN_def
        payment_page_resolved [OF loadEvents_scenario find_scenario_event r]
        truthy_def scenario_event_fields to_double_29900)
qed

text \<open>
  C3, amended. For a non-empty override the parse check comes first: a value that is
  not a number or is \<open>\<le> 0\<close> is answered with \<open>InvalidAmount\<close>, although every value
  \<open>\<le> 0\<close> is also below the range; only a positive number outside \<open>[1, 10000]\<close> is
  answered with \<open>OutOfRange\<close>. The two answers are different pages. The empty
  override is not checked at all: it resolves to the catalog price.
\<close>

theorem parse_check_before_range_check:
  assumes "s \<noteq> []"
      and "loadEvents w cfg = Inr events" and "find_event events eid = Some ev"
  shows "(isNaN (parseFloat s) \<or> js_le (parseFloat s) (Fin 0) \<longrightarrow>
            resolveAmount ev (Some s) = Inl InvalidAmount
          \<and> payment_page w cfg eid (Some s) =
              ErrorPage 400 ''Please provide a valid payment amount.'')
       \<and> (\<not> isNaN (parseFloat s) \<and> \<not> js_le (parseFloat s) (Fin 0)
            \<and> (js_lt (parseFloat s) (Fin 1) \<or> js_gt (parseFloat s) (Fin 10000)) \<longrightarrow>
            resolveAmount ev (Some s) = Inl OutOfRange
          \<and> payment_page w cfg eid (Some s) =
              ErrorPage 400 ''Payment amount must be between $1 and $10,000.'')
       \<and> ErrorPage 400 ''Please provide a valid payment amount.''
           \<noteq> ErrorPage 400 ''Payment amount must be between $1 and $10,000.''
       \<and> resolveAmount ev (Some []) = Inr (cost ev)
       \<and> payment_page w cfg eid (Some []) =
           CheckoutPage
             \<lparr>view_eventId = eid, view_eventName = eventName ev,
              view_eventDescription = eventDescription ev, view_custom = False,
              view_eventCost = cost ev, view_amount = js_mul (cost ev) (Fin 100)\<rparr>"
  using assms
  by (simp add: resolveAmount_supplied resolveAmount_empty payment_page_def truthy_def)

theorem parse_check_before_range_check_witness:
  "js_le (parseFloat ''-5'') (Fin 0) \<and> js_lt (parseFloat ''-5'') (Fin 1)
   \<and> resolveAmount scenario_event (Some ''-5'') = Inl InvalidAmount
   \<and> payment_page scenario_world None ''RS2025AI'' (Some ''-5'') =
       ErrorPage 400 ''Please provide a valid payment amount.''
   \<and> js_gt (parseFloat ''20000'') (Fin 10000)
   \<and> resolveAmount scenario_event (Some ''20000'') = Inl OutOfRange
   \<and> payment_page scenario_world None ''RS2025AI'' (Some ''20000'') =
       ErrorPage 400 ''Payment amount must be between $1 and $10,000.''
   \<and> resolveAmount scenario_event (Some []) = Inr (Fin 299)"
  using parse_check_before_range_check
          [OF _ loadEvents_scenario find_scenario_event, of "''-5''" None]
        parse_check_before_range_check
          [OF _ loadEvents_scenario find_scenario_event, of "''20000''" None]
  by (simp add: parseFloat_minus_5 parseFloat_20000 js_le_def js_gt_def isNaN_def
      scenario_event_fields)

section \<open>The configuration cache\<close>

text \<open>
  C4, as stated, fails when the configuration body is a falsy JSON value: \<^verbatim>\<open>false\<close>
  parses, is stored in \<^verbatim>\<open>CONFIG\<close>, and \<^verbatim>\<open>!CONFIG\<close> is still true at the next call, which
  fetches again. Three calls make three fetches.
\<close>

theorem falsy_config_is_fetched_again:
  "config_fetches
     (getStripeConfig_calls [falsy_config_world, falsy_config_world, falsy_config_world]
        initial_state) = 3
   \<and> CONFIG
     (getStripeConfig_calls [falsy_config_world, falsy_config_world, falsy_config_world]
        initial_state) = ConfigFalsy"
  by (simp add: getStripeConfig_fetches loadConfig_falsy initial_state_def)

text \<open>
  C4, amended. A call of \<^verbatim>\<open>getStripeConfig\<close> fetches exactly when \<^verbatim>\<open>CONFIG\<close> is not yet
  an object (it is \<^verbatim>\<open>null\<close> or a falsy value), and then stores what it obtained: the
  parsed body, or the fallback when the fetch or the parse failed. Once \<^verbatim>\<open>CONFIG\<close> is
  an object a call fetches nothing, changes nothing and returns the keys of that
  object. So, in a run of calls from the initial state, each call returning before the
  next begins, whose first fetch fails or yields an object, there is one fetch, by
  the first call, and every later call returns the cached value, the fallback
  included.
\<close>

theorem config_cached_once_loaded:
  "(CONFIG st = ConfigObject r \<longrightarrow> getStripeConfig w st = (Some (keys_of w r), st))
   \<and> (CONFIG st = ConfigNull \<or> CONFIG st = ConfigFalsy \<longrightarrow>
        snd (getStripeConfig w st) =
          \<lparr>CONFIG = (case loadConfig w of Inr c \<Rightarrow> c | Inl _ \<Rightarrow> ConfigObject fallback_config),
           config_fetches = config_fetches st + 1\<rparr>)
   \<and> config_fetches (getStripeConfig_calls [] initial_state) = 0
   \<and> (loadConfig w = Inl e \<longrightarrow>
        getStripeConfig_calls (w # ws) initial_state =
          \<lparr>CONFIG = ConfigObject fallback_config, config_fetches = 1\<rparr>
      \<and> getStripeConfig w' (getStripeConfig_calls (w # ws) initial_state) =
          (Some (keys_of w' fallback_config), getStripeConfig_calls (w # ws) initial_state))
   \<and> (loadConfig w = Inr (ConfigObject c) \<longrightarrow>
        getStripeConfig_calls (w # ws) initial_state =
          \<lparr>CONFIG = ConfigObject c, config_fetches = 1\<rparr>
      \<and> getStripeConfig w' (getStripeConfig_calls (w # ws) initial_state) =
          (Some (keys_of w' c), getStripeConfig_calls (w # ws) initial_state))"
proof -
  have i: "CONFIG initial_state = ConfigNull \<or> CONFIG initial_state = ConfigFalsy"
    "config_fetches initial_state = 0"
    by (simp_all add: initial_state_def)
  have first: "getStripeConfig_calls (w # ws) initial_state =
      \<lparr>CONFIG = ConfigObject x, config_fetches = 1\<rparr>"
    if "(case loadConfig w of Inr c \<Rightarrow> c | Inl _ \<Rightarrow> ConfigObject fallback_config) = ConfigObject x"
    for x
    using that by (simp add: getStripeConfig_fetches [OF i(1)] i(2) getStripeConfig_calls_cached)
  have later: "getStripeConfig w' \<lparr>CONFIG = ConfigObject x, config_fetches = 1\<rparr> =
      (Some (keys_of w' x), \<lparr>CONFIG = ConfigObject x, config_fetches = 1\<rparr>)" for x
    by (simp add: getStripeConfig_cached)
  have a: "getStripeConfig_calls (w # ws) initial_state =
          \<lparr>CONFIG = ConfigObject fallback_config, config_fetches = 1\<rparr>
      \<and> getStripeConfig w' (getStripeConfig_calls (w # ws) initial_state) =
          (Some (keys_of w' fallback_config), getStripeConfig_calls (w # ws) initial_state)"
    if "loadConfig w = Inl e"
    using first [of fallback_config] later [of fallback_config] that by simp
  have b: "getStripeConfig_calls (w # ws) initial_state =
          \<lparr>CONFIG = ConfigObject c, config_fetches = 1\<rparr>
      \<and> getStripeConfig w' (getStripeConfig_calls (w # ws) initial_state) =
          (Some (keys_of w' c), getStripeConfig_calls (w # ws) initial_state)"
    if "loadConfig w = Inr (ConfigObject c)"
    using first [of c] later [of c] that by simp
  have z: "config_fetches (getStripeConfig_calls [] initial_state) = 0"
    using i(2) by simp
  show ?thesis
    using getStripeConfig_cached [of st r w] getStripeConfig_fetches [of st w] z a b
    by blast
qed

theorem config_cached_once_loaded_witness:
  "getStripeConfig_calls [unreachable_world, scenario_world, scenario_world] initial_state =
     \<lparr>CONFIG = ConfigObject fallback_config, config_fetches = 1\<rparr>
   \<and> fst (getStripeConfig scenario_world
       (getStripeConfig_calls [unreachable_world, scenario_world, scenario_world] initial_state)) =
       Some \<lparr>publishableKey = ''pk_test_fallback'', secretKey = ''sk_test_fallback''\<rparr>
   \<and> getStripeConfig_calls [scenario_world, unreachable_world, falsy_config_world] initial_state =
     \<lparr>CONFIG = ConfigObject scenario_config, config_fetches = 1\<rparr>
   \<and> snd (getStripeConfig null_config_world initial_state) =
     \<lparr>CONFIG = ConfigNull, config_fetches = 1\<rparr>
   \<and> fst (getStripeConfig null_config_world initial_state) = None"
proof -
  have k: "keys_of scenario_world fallback_config =
      \<lparr>publishableKey = ''pk_test_fallback'', secretKey = ''sk_test_fallback''\<rparr>"
    by (simp add: keys_of_def fallback_config_def stripe_field_def or_else_def scenario_world_def)
  have n: "fst (getStripeConfig null_config_world initial_state) = None"
    by (simp add: getStripeConfig_def initial_state_def not_config_def loadConfig_null
        returned_keys_def)
  have i: "CONFIG initial_state = ConfigNull \<or> CONFIG initial_state = ConfigFalsy"
    "config_fetches initial_state = 0"
    by (simp_all add: initial_state_def)
  from config_cached_once_loaded
         [of initial_state scenario_config unreachable_world FetchError
             "[scenario_world, scenario_world]" scenario_world scenario_config]
  have a: "getStripeConfig_calls [unreachable_world, scenario_world, scenario_world]
             initial_state = \<lparr>CONFIG = ConfigObject fallback_config, config_fetches = 1\<rparr>"
    and a': "getStripeConfig scenario_world
              (getStripeConfig_calls [unreachable_world, scenario_world, scenario_world]
                 initial_state) =
             (Some (keys_of scenario_world fallback_config),
              getStripeConfig_calls [unreachable_world, scenario_world, scenario_world]
                initial_state)"
    using loadConfig_unreachable by blast+
  from config_cached_once_loaded
         [of initial_state scenario_config scenario_world FetchError
             "[unreachable_world, falsy_config_world]" scenario_world scenario_config]
  have b: "getStripeConfig_calls [scenario_world, unreachable_world, falsy_config_world]
             initial_state = \<lparr>CONFIG = ConfigObject scenario_config, config_fetches = 1\<rparr>"
    using loadConfig_scenario by blast
  from config_cached_once_loaded
         [of initial_state scenario_config null_config_world FetchError
             "[]" scenario_world scenario_config]
  have "snd (getStripeConfig null_config_world initial_state) =
          \<lparr>CONFIG = (case loadConfig null_config_world of
                       Inr c \<Rightarrow> c | Inl _ \<Rightarrow> ConfigObject fallback_config),
           config_fetches = config_fetches initial_state + 1\<rparr>"
    using i(1) by blast
  then have c: "snd (getStripeConfig null_config_world initial_state) =
     \<lparr>CONFIG = ConfigNull, config_fetches = 1\<rparr>"
    by (simp add: loadConfig_null i(2))
  have "fst (getStripeConfig scenario_world
       (getStripeConfig_calls [unreachable_world, scenario_world, scenario_world] initial_state)) =
       Some \<lparr>publishableKey = ''pk_test_fallback'', secretKey = ''sk_test_fallback''\<rparr>"
    by (simp only: a' fst_conv k)
  with a b c n show ?thesis by blast
qed

section \<open>Looking an event up\<close>



section \<open>Processing a payment\<close>



text \<open>
  C7. When the processor is reached and returns a charge, the status
  \<^verbatim>\<open>succeeded\<close> gives the 200 response with \<open>success\<close> true, the charge's id and its
  receipt URL; every other status gives the 400 response with \<open>success\<close> false and the
  fixed message "Payment was not successful", which is the outcome the specification
  calls ProcessorDeclined.
\<close>

theorem charge_status_decides_result:
  assumes "\<not> missing_fields b" and "\<not> js_lt (the (body_amount b)) (Fin 50)"
      and "loadEvents w cfg = Inr events"
      and "find_event events (the (body_eventId b)) = Some ev"
      and "charges_create w (charge_request w b ev) = Inr ch"
  shows "(charge_status ch = ''succeeded'' \<longrightarrow>
            fst (process_payment w cfg b) =
              \<lparr>status = 200, success = True, error = None,
               chargeId = Some (charge_id ch), receiptUrl = Some (receipt_url ch)\<rparr>)
       \<and> (charge_status ch \<noteq> ''succeeded'' \<longrightarrow>
            fst (process_payment w cfg b) =
              \<lparr>status = 400, success = False, error = Some ''Payment was not successful'',
               chargeId = None, receiptUrl = None\<rparr>)"
  by (simp add: process_payment_reaches_processor [OF assms(1-4)] assms(5) failure_fields)

theorem charge_status_decides_result_witness:
  "fst (process_payment scenario_world None (scenario_body (Some (Fin 29900)))) =
     \<lparr>status = 200, success = True, error = None, chargeId = Some ''ch_123'',
      receiptUrl = Some ''https://pay.stripe.com/receipts/1''\<rparr>
   \<and> fst (process_payment pending_world None (scenario_body (Some (Fin 29900)))) =
     \<lparr>status = 400, success = False, error = Some ''Payment was not successful'',
      chargeId = None, receiptUrl = None\<rparr>"
proof -
  have s: "charges_create scenario_world
             (charge_request scenario_world (scenario_body (Some (Fin 29900))) scenario_event) =
           Inr \<lparr>charge_status = ''succeeded'', charge_id = ''ch_123'',
                receipt_url = ''https://pay.stripe.com/receipts/1''\<rparr>"
    by (simp add: scenario_world_def)
  have p: "charges_create pending_world
             (charge_request pending_world (scenario_body (Some (Fin 29900))) scenario_event) =
           Inr \<lparr>charge_status = ''pending'', charge_id = ''ch_124'',
                receipt_url = ''https://pay.stripe.com/receipts/2''\<rparr>"
    by (simp add: pending_world_def)
  from charge_status_decides_result [OF scenario_reaches_processor(1,2) loadEvents_scenario
         scenario_reaches_processor(3) s]
       charge_status_decides_result [OF scenario_reaches_processor(1,2) loadEvents_pending
         scenario_reaches_processor(3) p]
  show ?thesis by simp
qed

text \<open>
  C8. When the call of the processor throws, the response is 400 with \<open>success\<close> false
  and a message chosen by the type of the error: the error's own message for a
  \<^verbatim>\<open>StripeCardError\<close>, "Invalid payment information" for a
  \<^verbatim>\<open>StripeInvalidRequestError\<close>, "Payment service temporarily unavailable" for a
  \<^verbatim>\<open>StripeAPIError\<close>, and "Payment failed. Please try again." for every other error,
  whatever its message is.
\<close>

theorem processor_errors_are_mapped:
  assumes "\<not> missing_fields b" and "\<not> js_lt (the (body_amount b)) (Fin 50)"
      and "loadEvents w cfg = Inr events"
      and "find_event events (the (body_eventId b)) = Some ev"
      and "charges_create w (charge_request w b ev) = Inl err"
  shows "fst (process_payment w cfg b) =
           \<lparr>status = 400, success = False, error = Some (errorMessage err),
            chargeId = None, receiptUrl = None\<rparr>
       \<and> (err_type err = Some ''StripeCardError'' \<longrightarrow> errorMessage err = err_message err)
       \<and> (err_type err = Some ''StripeInvalidRequestError'' \<longrightarrow>
            errorMessage err = ''Invalid payment information'')
       \<and> (err_type err = Some ''StripeAPIError'' \<longrightarrow>
            errorMessage err = ''Payment service temporarily unavailable'')
       \<and> (err_type err \<notin> {Some ''StripeCardError'', Some ''StripeInvalidRequestError'',
                            Some ''StripeAPIError''} \<longrightarrow>
            errorMessage err = ''Payment failed. Please try again.'')"
  by (simp add: process_payment_reaches_processor [OF assms(1-4)] assms(5) catch_block_def
      failure_fields errorMessage_def)

theorem processor_errors_are_mapped_witness:
  "fst (process_payment declining_world None (scenario_body (Some (Fin 29900)))) =
     \<lparr>status = 400, success = False, error = Some ''Your card was declined.'',
      chargeId = None, receiptUrl = None\<rparr>"
proof -
  have d: "charges_create declining_world
             (charge_request declining_world (scenario_body (Some (Fin 29900))) scenario_event) =
           Inl \<lparr>err_type = Some ''StripeCardError'', err_message = ''Your card was declined.''\<rparr>"
    by (simp add: declining_world_def)
  from processor_errors_are_mapped [OF scenario_reaches_processor(1,2) loadEvents_declining
         scenario_reaches_processor(3) d]
  show ?thesis by simp
qed

section \<open>The amount in minor units\<close>

text \<open>
  C9, as stated, fails where the product in doubles and the exact product round
  differently: for \<^verbatim>\<open>pay=1.045\<close> the resolved amount is the double below 1.045, its
  exact hundredfold is below 104.5 and rounds to 104, but \<^verbatim>\<open>a * 100\<close> is the double
  104.5 and the charge is 105.
\<close>

theorem charge_of_1_045_is_105:
  "resolveAmount scenario_event (Some ''1.045'') =
     Inr (Fin (588282701325271 / 562949953421312))
   \<and> checkout scenario_world scenario_world None ''RS2025AI'' (Some ''1.045'') scenario_form =
       [charge_request scenario_world (scenario_body (Some (Fin (209 / 2)))) scenario_event]
   \<and> amount (charge_request scenario_world (scenario_body (Some (Fin (209 / 2)))) scenario_event) =
       Fin 105
   \<and> \<lfloor>588282701325271 / 562949953421312 * 100 + 1 / 2 :: rat\<rfloor> = 104"
proof -
  have "\<lfloor>588282701325271 / 562949953421312 * 100 + 1 / 2 :: rat\<rfloor> = 104"
    by (rule floor_unique) simp_all
  then show ?thesis
    by (simp add: resolveAmount_1_045 checkout_1_045 amount_charge_request
        del: Math_round.simps add: Math_round_104_5)
qed

text \<open>
  C9, amended. Let \<open>a\<close> be the amount resolved for a checkout (the catalog price or the
  accepted override). Every charge the checkout asks of the processor has an integer
  amount \<open>n\<close>, obtained in two roundings: \<open>100 a\<close> is rounded to the nearest double \<open>y\<close>
  (\<open>y = m 2^(e-52)\<close> with \<open>e\<close> the binary exponent of \<open>100 a\<close> and \<open>m\<close> the integer nearest
  to \<open>100 a / 2^(e-52)\<close>, the even one of two equally near), and \<open>n\<close> is the integer
  nearest to \<open>y\<close>, the greater of two equally near. So \<open>n\<close> differs from \<open>100 a\<close> by at
  most \<open>1/2 + 100 a / 2^53\<close>, and \<open>n = 100 a\<close> when \<open>100 a\<close> is a whole number below
  \<open>2^53\<close>.
\<close>

theorem submitted_amount_is_rounded_cents:
  assumes "loadEvents w cfg = Inr events" and "find_event events eid = Some ev"
      and "resolveAmount ev customPay = Inr a"
      and "p \<in> set (checkout w w' cfg eid customPay f)"
  shows "\<exists>x e m n.
           a = Fin x
         \<and> power_int 2 e \<le> x * 100 \<and> x * 100 < power_int 2 (e + 1)
         \<and> \<bar>of_int m - x * 100 / power_int 2 (e - 52)\<bar> \<le> 1 / 2
         \<and> (\<bar>of_int m - x * 100 / power_int 2 (e - 52)\<bar> = 1 / 2 \<longrightarrow> even m)
         \<and> (of_int n :: rat) \<le> of_int m * power_int 2 (e - 52) + 1 / 2
         \<and> (of_int m :: rat) * power_int 2 (e - 52) + 1 / 2 < of_int n + 1
         \<and> amount p = Fin (of_int n)
         \<and> \<bar>of_int n - x * 100\<bar> \<le> 1 / 2 + x * 100 / 2 ^ 53
         \<and> (x * 100 \<in> \<int> \<and> x * 100 < 2 ^ 53 \<longrightarrow> amount p = Fin (x * 100))"
proof -
  let ?v = "\<lparr>view_eventId = eid, view_eventName = eventName ev,
              view_eventDescription = eventDescription ev, view_custom = truthy customPay,
              view_eventCost = a, view_amount = js_mul a (Fin 100)\<rparr>"
  have c: "p \<in> set (snd (process_payment w' cfg (client_body ?v f)))"
    using assms(4) by (simp add: checkout_def payment_page_resolved [OF assms(1-3)])
  note g = process_payment_calls [OF c]
  from g have "truthy_amount (json_number (js_mul a (Fin 100)))"
    by (simp add: missing_fields_def client_body_def)
  then obtain y where y: "js_mul a (Fin 100) = Fin y"
      "json_number (js_mul a (Fin 100)) = Some (Fin y)"
    using json_number_truthy by blast
  from g have y50: "50 \<le> y"
    by (simp add: client_body_def y(2))
  have "amount p = Math_round (the (body_amount (client_body ?v f)))"
    using c by (rule process_payment_calls_amount)
  then have am: "amount p = Fin (of_int \<lfloor>y + 1 / 2\<rfloor>)"
    by (simp add: client_body_def y(2))
  from js_mul_100_finite [OF y(1)] obtain x where x: "a = Fin x" "to_double (x * 100) = Fin y"
    by blast
  from y50 have "2 \<le> y" by simp
  from to_double_nearest [OF x(2) this] obtain e m where
    em: "power_int 2 e \<le> x * 100" "x * 100 < power_int 2 (e + 1)"
        "y = of_int m * power_int 2 (e - 52)"
        "\<bar>of_int m - x * 100 / power_int 2 (e - 52)\<bar> \<le> 1 / 2"
        "\<bar>of_int m - x * 100 / power_int 2 (e - 52)\<bar> = 1 / 2 \<longrightarrow> even m"
        "\<bar>y - x * 100\<bar> \<le> x * 100 / 2 ^ 53"
    by blast
  define n where "n = \<lfloor>y + 1 / 2\<rfloor>"
  have fl: "of_int n \<le> y + 1 / 2" "y + 1 / 2 < of_int n + 1"
    unfolding n_def by linarith+
  have an: "amount p = Fin (of_int n)"
    using am by (simp add: n_def)
  have near: "\<bar>of_int n - x * 100\<bar> \<le> 1 / 2 + x * 100 / 2 ^ 53"
    using fl em(6) by linarith
  have exact: "amount p = Fin (x * 100)" if "x * 100 \<in> \<int>" "x * 100 < 2 ^ 53"
  proof -
    from that(1) obtain k :: int where k: "x * 100 = of_int k" by (auto elim: Ints_cases)
    have "0 < x * 100" using em(1) p2_pos [of e] by linarith
    with k that(2) have "0 < k" "k < 2 ^ 53" by simp_all
    then have "to_double (of_int k) = Fin (of_int k)" by (rule to_double_int)
    with x(2) k have "y = of_int k" by simp
    then have "\<lfloor>y + 1 / 2\<rfloor> = k" by (simp add: floor_unique)
    with am k show ?thesis by simp
  qed
  have "a = Fin x
         \<and> power_int 2 e \<le> x * 100 \<and> x * 100 < power_int 2 (e + 1)
         \<and> \<bar>of_int m - x * 100 / power_int 2 (e - 52)\<bar> \<le> 1 / 2
         \<and> (\<bar>of_int m - x * 100 / power_int 2 (e - 52)\<bar> = 1 / 2 \<longrightarrow> even m)
         \<and> (of_int n :: rat) \<le> of_int m * power_int 2 (e - 52) + 1 / 2
         \<and> (of_int m :: rat) * power_int 2 (e - 52) + 1 / 2 < of_int n + 1
         \<and> amount p = Fin (of_int n)
         \<and> \<bar>of_int n - x * 100\<bar> \<le> 1 / 2 + x * 100 / 2 ^ 53
         \<and> (x * 100 \<in> \<int> \<and> x * 100 < 2 ^ 53 \<longrightarrow> amount p = Fin (x * 100))"
    using x(1) em(1,2,4,5) fl [unfolded em(3)] an near exact by blast
  then show ?thesis by blast
qed

theorem submitted_amount_is_rounded_cents_witness:
  "checkout scenario_world scenario_world None ''RS2025AI'' (Some ''1.045'') scenario_form =
     [charge_request scenario_world (scenario_body (Some (Fin (209 / 2)))) scenario_event]
   \<and> amount (charge_request scenario_world (scenario_body (Some (Fin (209 / 2)))) scenario_event)
       = Fin 105
   \<and> (\<exists>n::int. \<bar>of_int n - 588282701325271 / 562949953421312 * 100\<bar>
                  \<le> (1 / 2 + 588282701325271 / 562949953421312 * 100 / 2 ^ 53 :: rat)
        \<and> amount (charge_request scenario_world (scenario_body (Some (Fin (209 / 2))))
             scenario_event) = Fin (of_int n))
   \<and> resolveAmount scenario_event None = Inr (Fin 299)
   \<and> checkout scenario_world scenario_world None ''RS2025AI'' None scenario_form =
       [charge_request scenario_world (scenario_body (Some (Fin 29900))) scenario_event]
   \<and> amount (charge_request scenario_world (scenario_body (Some (Fin 29900))) scenario_event) =
       Fin 29900"
proof -
  let ?p = "charge_request scenario_world (scenario_body (Some (Fin (209 / 2)))) scenario_event"
  let ?p' = "charge_request scenario_world (scenario_body (Some (Fin 29900))) scenario_event"
  have r: "resolveAmount scenario_event None = Inr (Fin 299)"
    by (simp add: resolveAmount_def scenario_event_fields)
  have m: "?p \<in> set (checkout scenario_world scenario_world None ''RS2025AI'' (Some ''1.045'')
                       scenario_form)"
    by (simp add: checkout_1_045)
  have m': "?p' \<in> set (checkout scenario_world scenario_world None ''RS2025AI'' None
                       scenario_form)"
    by (simp add: checkout_scenario_catalog_price)
  from submitted_amount_is_rounded_cents
         [OF loadEvents_scenario find_scenario_event resolveAmount_1_045 m]
  obtain x and n :: int where
    h: "Fin (588282701325271 / 562949953421312) = Fin x"
       "amount ?p = Fin (of_int n)"
       "\<bar>of_int n - x * 100\<bar> \<le> 1 / 2 + x * 100 / 2 ^ 53"
    by blast
  from h(1) have xe: "x = 588282701325271 / 562949953421312"
    by (rule jsnum.inject [THEN iffD1, symmetric])
  have one: "\<exists>n::int. \<bar>of_int n - 588282701325271 / 562949953421312 * 100\<bar>
                  \<le> (1 / 2 + 588282701325271 / 562949953421312 * 100 / 2 ^ 53 :: rat)
        \<and> amount ?p = Fin (of_int n)"
    using h(2,3) unfolding xe by blast
  from submitted_amount_is_rounded_cents
         [OF loadEvents_scenario find_scenario_event r m']
  obtain x' where
    h': "Fin 299 = Fin x'"
        "x' * 100 \<in> \<int> \<and> x' * 100 < 2 ^ 53 \<longrightarrow> amount ?p' = Fin (x' * 100)"
    by blast
  from h'(1) have xe': "x' = 299"
    by (rule jsnum.inject [THEN iffD1, symmetric])
  have two: "amount ?p' = Fin 29900"
    using h'(2) unfolding xe' by simp
  have three: "amount ?p = Fin 105"
    by (simp only: amount_charge_request Math_round_104_5)
  from one two three r show ?thesis
    using checkout_1_045 checkout_scenario_catalog_price by blast
qed

section \<open>A zero or negative amount\<close>

text \<open>
  C10, as stated, fails for a negative amount: it is truthy and below 50, so the
  answer is "Amount too small" although the amount is not above 0.
\<close>

theorem negative_amount_is_too_small:
  "process_payment scenario_world None (scenario_body (Some (Fin (- 5)))) =
     (failure 400 ''Amount too small'', [])
   \<and> \<not> js_lt (Fin 0) (Fin (- 5))"
  by (simp add: process_payment_too_small scenario_body_present scenario_body_fields)

text \<open>
  C10, amended. A body whose amount is absent, 0 or NaN is answered "Missing required
  fields", the presence test coming first. The answer "Amount too small", with no
  call of the processor, is given exactly when all six fields are present and the
  amount is below 50: with the other five fields present and a finite amount \<open>x\<close>,
  exactly when \<open>x \<noteq> 0\<close> and \<open>x < 50\<close>, which holds for every negative amount.
\<close>

theorem amount_too_small_iff:
  "(\<not> truthy_amount (body_amount b) \<longrightarrow>
      process_payment w cfg b = (failure 400 ''Missing required fields'', []))
   \<and> (process_payment w cfg b = (failure 400 ''Amount too small'', []) \<longleftrightarrow>
        \<not> missing_fields b \<and> js_lt (the (body_amount b)) (Fin 50))
   \<and> (truthy (token b) \<and> truthy (body_eventId b) \<and> truthy (name b) \<and> truthy (email b)
        \<and> truthy (phone b) \<and> body_amount b = Some (Fin x) \<longrightarrow>
        (process_payment w cfg b = (failure 400 ''Amount too small'', []) \<longleftrightarrow>
           x \<noteq> 0 \<and> x < 50))"
proof -
  have a: "process_payment w cfg b = (failure 400 ''Missing required fields'', [])"
    if "\<not> truthy_amount (body_amount b)"
    using that by (simp add: process_payment_missing missing_fields_def)
  have b: "process_payment w cfg b = (failure 400 ''Amount too small'', []) \<longleftrightarrow>
        \<not> missing_fields b \<and> js_lt (the (body_amount b)) (Fin 50)"
    by (auto simp add: process_payment_def failure_def catch_block_def
        split: sum.splits option.splits)
  have c: "\<not> missing_fields b \<and> js_lt (the (body_amount b)) (Fin 50) \<longleftrightarrow> x \<noteq> 0 \<and> x < 50"
    if "truthy (token b)" "truthy (body_eventId b)" "truthy (name b)" "truthy (email b)"
       "truthy (phone b)" "body_amount b = Some (Fin x)"
    using that by (simp add: missing_fields_def truthy_amount_def truthy_num_def)
  show ?thesis
    using a b c by blast
qed

theorem amount_too_small_iff_witness:
  "process_payment scenario_world None (scenario_body (Some (Fin 0))) =
     (failure 400 ''Missing required fields'', [])
   \<and> process_payment scenario_world None (scenario_body (Some (Fin 49))) =
     (failure 400 ''Amount too small'', [])
   \<and> process_payment scenario_world None (scenario_body (Some (Fin 50))) \<noteq>
     (failure 400 ''Amount too small'', [])"
  using amount_too_small_iff [of "scenario_body (Some (Fin 0))" scenario_world None 0]
        amount_too_small_iff [of "scenario_body (Some (Fin 49))" scenario_world None 49]
        amount_too_small_iff [of "scenario_body (Some (Fin 50))" scenario_world None 50]
  by (simp add: scenario_body_fields truthy_def truthy_amount_def truthy_num_def)

end
